theory Spec2Isabelle
  imports Complex_Main "HOL-Library.Sublist"
begin

section \<open>Python values, objects and the heap\<close>

text \<open>
  The module \<^verbatim>\<open>expressions.py\<close> builds expression nodes as Python objects. A node is
  identified by its address, not by its contents: the traversal memoises on the object
  itself, and the classes define neither \<^verbatim>\<open>__eq__\<close> nor \<^verbatim>\<open>__hash__\<close>. Objects therefore
  live in an explicit heap, a list of objects in which a reference is an index.
  Constructing an object appends it to the heap, and no method of the module ever
  assigns to an attribute of an existing object.

  The values that can be handed to the module are integers, floats, strings,
  \<^verbatim>\<open>None\<close> and references to expression objects. A float is modelled by the real number
  it stands for (the module never computes with floats, it only stores the literals
  \<^verbatim>\<open>0.0\<close> and \<^verbatim>\<open>1.0\<close>).
\<close>

type_synonym ref = nat

datatype pyval = PyInt int | PyFloat real | PyStr string | PyNone | PyRef ref

text \<open>The classes of the module. \<open>Pow_cls\<close> is the class \<^verbatim>\<open>Pow\<close>.\<close>

datatype cls =
  Expression | Operator | Terminal | Number | Symbol | Add | Sub | Mul | Div | Pow_cls

text \<open>
  An object has its class, the attribute \<^verbatim>\<open>operands\<close> set by \<^verbatim>\<open>Expression.__init__\<close>, and the
  attribute \<^verbatim>\<open>value\<close>, which only \<^verbatim>\<open>Terminal.__init__\<close> sets (\<open>None\<close> when the object has no
  such attribute).
\<close>

record obj =
  cls_of :: cls
  operands :: "pyval list"
  value_attr :: "pyval option"

type_synonym heap = "obj list"

datatype error =
  TypeError | AttributeError | IndexError | KeyError | NotImplementedError | RecursionError

text \<open>
  The object a value refers to. A non-reference has none, and neither has a
  reference beyond the heap (which no Python program can hold).
\<close>

definition get_obj :: "heap \<Rightarrow> pyval \<Rightarrow> obj option" where
  "get_obj h v = (case v of PyRef r \<Rightarrow> (if r < length h then Some (h ! r) else None) | _ \<Rightarrow> None)"

text \<open>The attribute access \<^verbatim>\<open>e.operands\<close>.\<close>

definition operands_of :: "heap \<Rightarrow> pyval \<Rightarrow> error + pyval list" where
  "operands_of h e = (case get_obj h e of None \<Rightarrow> Inl AttributeError | Some ob \<Rightarrow> Inr (operands ob))"

text \<open>Object creation: the new object gets the next free address.\<close>

definition new :: "cls \<Rightarrow> pyval list \<Rightarrow> pyval option \<Rightarrow> heap \<Rightarrow> pyval \<times> heap" where
  "new c ops v h = (PyRef (length h), h @ [\<lparr>cls_of = c, operands = ops, value_attr = v\<rparr>])"

section \<open>The post-order visitor\<close>

text \<open>
  \<^verbatim>\<open>postvisitor(expr, fn, **kwargs)\<close> keeps a work stack and the dictionary \<^verbatim>\<open>visited\<close>.
  The function \<open>fn\<close> is supplied by the caller; it may create objects and it may raise, so
  it takes the heap and returns an error or its result with the new heap. The field
  \<open>calls\<close> is not a variable of the source: it records each invocation of \<open>fn\<close> (node,
  operand results, keyword arguments, returned result) so that properties of the
  invocations can be stated.
\<close>

record ('r, 'k) pv_state =
  stack :: "pyval list"
  visited :: "pyval \<rightharpoonup> 'r"
  heap :: heap
  calls :: "(pyval \<times> 'r list \<times> 'k \<times> 'r) list"

text \<open>The argument tuple \<^verbatim>\<open>(visited[o] for o in e.operands)\<close>; a missing key raises.\<close>

primrec lookup_all :: "(pyval \<rightharpoonup> 'r) \<Rightarrow> pyval list \<Rightarrow> error + 'r list" where
  "lookup_all m [] = Inr []"
| "lookup_all m (x # xs) =
     (case m x of None \<Rightarrow> Inl KeyError
      | Some r \<Rightarrow> (case lookup_all m xs of Inl err \<Rightarrow> Inl err | Inr rs \<Rightarrow> Inr (r # rs)))"

text \<open>
  One iteration of the \<^verbatim>\<open>while\<close> loop, after \<^verbatim>\<open>e = stack.pop()\<close>: the stack of \<open>s\<close> is what is
  left below \<open>e\<close>. The top of the stack is the head of the list, so pushing the unvisited
  children one after the other leaves them reversed above \<open>e\<close>.
\<close>

definition postvisitor_body ::
  "(pyval \<Rightarrow> 'r list \<Rightarrow> 'k \<Rightarrow> heap \<Rightarrow> error + 'r \<times> heap) \<Rightarrow> 'k \<Rightarrow> pyval \<Rightarrow>
   ('r, 'k) pv_state \<Rightarrow> error + ('r, 'k) pv_state" where
  "postvisitor_body fn kwargs e s =
     (case operands_of (heap s) e of
        Inl err \<Rightarrow> Inl err
      | Inr ops \<Rightarrow>
          (let unvisited_children = filter (\<lambda>o'. visited s o' = None) ops in
           if unvisited_children \<noteq> [] then
             Inr (s\<lparr>stack := rev unvisited_children @ e # stack s\<rparr>)
           else
             (case lookup_all (visited s) ops of
                Inl err \<Rightarrow> Inl err
              | Inr os \<Rightarrow>
                  (case fn e os kwargs (heap s) of
                     Inl err \<Rightarrow> Inl err
                   | Inr (r, h') \<Rightarrow>
                       Inr (s\<lparr>visited := (visited s)(e \<mapsto> r), heap := h',
                              calls := calls s @ [(e, os, kwargs, r)]\<rparr>)))))"

text \<open>
  The loop \<^verbatim>\<open>while stack: ...\<close>. Nothing in the source bounds the number of iterations, so
  the loop is a partial function: \<open>None\<close> is a loop that never ends.
\<close>

partial_function (option) postvisitor_loop ::
  "(pyval \<Rightarrow> 'r list \<Rightarrow> 'k \<Rightarrow> heap \<Rightarrow> error + 'r \<times> heap) \<Rightarrow> 'k \<Rightarrow>
   ('r, 'k) pv_state \<Rightarrow> (error + ('r, 'k) pv_state) option" where
  "postvisitor_loop fn kwargs s =
     (case stack s of
        [] \<Rightarrow> Some (Inr s)
      | e # rest \<Rightarrow>
          (case postvisitor_body fn kwargs e (s\<lparr>stack := rest\<rparr>) of
             Inl err \<Rightarrow> Some (Inl err)
           | Inr s' \<Rightarrow> postvisitor_loop fn kwargs s'))"

definition postvisitor_init :: "heap \<Rightarrow> pyval \<Rightarrow> ('r, 'k) pv_state" where
  "postvisitor_init h expr = \<lparr>stack = [expr], visited = Map.empty, heap = h, calls = []\<rparr>"

text \<open>The whole function, ending with \<^verbatim>\<open>return visited[expr]\<close>.\<close>

definition postvisitor ::
  "heap \<Rightarrow> pyval \<Rightarrow> (pyval \<Rightarrow> 'r list \<Rightarrow> 'k \<Rightarrow> heap \<Rightarrow> error + 'r \<times> heap) \<Rightarrow> 'k \<Rightarrow>
   (error + 'r \<times> heap) option" where
  "postvisitor h expr fn kwargs =
     (case postvisitor_loop fn kwargs (postvisitor_init h expr) of
        None \<Rightarrow> None
      | Some (Inl err) \<Rightarrow> Some (Inl err)
      | Some (Inr s) \<Rightarrow>
          (case visited s expr of
             None \<Rightarrow> Some (Inl KeyError)
           | Some r \<Rightarrow> Some (Inr (r, heap s))))"

section \<open>Construction and the operator hooks\<close>

text \<open>The test \<^verbatim>\<open>isinstance(value, numbers.Number)\<close> on the values of the model.\<close>

definition isinstance_Num :: "pyval \<Rightarrow> bool" where
  "isinstance_Num v = (case v of PyInt _ \<Rightarrow> True | PyFloat _ \<Rightarrow> True | _ \<Rightarrow> False)"

text \<open>\<^verbatim>\<open>Number(value)\<close>: \<^verbatim>\<open>Number.__init__\<close> raises before \<^verbatim>\<open>Terminal.__init__\<close> stores anything.\<close>

definition Number_init :: "pyval \<Rightarrow> heap \<Rightarrow> error + pyval \<times> heap" where
  "Number_init v h =
     (if \<not> isinstance_Num v then Inl TypeError else Inr (new Number [] (Some v) h))"

text \<open>\<^verbatim>\<open>Symbol(symbol)\<close> stores any payload.\<close>

definition Symbol_init :: "pyval \<Rightarrow> heap \<Rightarrow> pyval \<times> heap" where
  "Symbol_init v h = new Symbol [] (Some v) h"

text \<open>
  The methods \<^verbatim>\<open>__add__\<close>, \<^verbatim>\<open>__radd__\<close>, ... of \<^verbatim>\<open>Expression\<close>. The direct forms promote a
  number and take anything else as it is; the reflected forms promote unconditionally.
\<close>

definition Expression_add :: "pyval \<Rightarrow> pyval \<Rightarrow> heap \<Rightarrow> error + pyval \<times> heap" where
  "Expression_add self other h =
     (if isinstance_Num other then
        (case Number_init other h of Inl err \<Rightarrow> Inl err
         | Inr (n, h') \<Rightarrow> Inr (new Add [self, n] None h'))
      else Inr (new Add [self, other] None h))"

definition Expression_radd :: "pyval \<Rightarrow> pyval \<Rightarrow> heap \<Rightarrow> error + pyval \<times> heap" where
  "Expression_radd self other h =
     (case Number_init other h of Inl err \<Rightarrow> Inl err
      | Inr (n, h') \<Rightarrow> Inr (new Add [n, self] None h'))"

definition Expression_sub :: "pyval \<Rightarrow> pyval \<Rightarrow> heap \<Rightarrow> error + pyval \<times> heap" where
  "Expression_sub self other h =
     (if isinstance_Num other then
        (case Number_init other h of Inl err \<Rightarrow> Inl err
         | Inr (n, h') \<Rightarrow> Inr (new Sub [self, n] None h'))
      else Inr (new Sub [self, other] None h))"

definition Expression_rsub :: "pyval \<Rightarrow> pyval \<Rightarrow> heap \<Rightarrow> error + pyval \<times> heap" where
  "Expression_rsub self other h =
     (case Number_init other h of Inl err \<Rightarrow> Inl err
      | Inr (n, h') \<Rightarrow> Inr (new Sub [n, self] None h'))"

definition Expression_mul :: "pyval \<Rightarrow> pyval \<Rightarrow> heap \<Rightarrow> error + pyval \<times> heap" where
  "Expression_mul self other h =
     (if isinstance_Num other then
        (case Number_init other h of Inl err \<Rightarrow> Inl err
         | Inr (n, h') \<Rightarrow> Inr (new Mul [self, n] None h'))
      else Inr (new Mul [self, other] None h))"

definition Expression_rmul :: "pyval \<Rightarrow> pyval \<Rightarrow> heap \<Rightarrow> error + pyval \<times> heap" where
  "Expression_rmul self other h =
     (case Number_init other h of Inl err \<Rightarrow> Inl err
      | Inr (n, h') \<Rightarrow> Inr (new Mul [n, self] None h'))"

definition Expression_truediv :: "pyval \<Rightarrow> pyval \<Rightarrow> heap \<Rightarrow> error + pyval \<times> heap" where
  "Expression_truediv self other h =
     (if isinstance_Num other then
        (case Number_init other h of Inl err \<Rightarrow> Inl err
         | Inr (n, h') \<Rightarrow> Inr (new Div [self, n] None h'))
      else Inr (new Div [self, other] None h))"

definition Expression_rtruediv :: "pyval \<Rightarrow> pyval \<Rightarrow> heap \<Rightarrow> error + pyval \<times> heap" where
  "Expression_rtruediv self other h =
     (case Number_init other h of Inl err \<Rightarrow> Inl err
      | Inr (n, h') \<Rightarrow> Inr (new Div [n, self] None h'))"

definition Expression_pow :: "pyval \<Rightarrow> pyval \<Rightarrow> heap \<Rightarrow> error + pyval \<times> heap" where
  "Expression_pow self other h =
     (if isinstance_Num other then
        (case Number_init other h of Inl err \<Rightarrow> Inl err
         | Inr (n, h') \<Rightarrow> Inr (new Pow_cls [self, n] None h'))
      else Inr (new Pow_cls [self, other] None h))"

definition Expression_rpow :: "pyval \<Rightarrow> pyval \<Rightarrow> heap \<Rightarrow> error + pyval \<times> heap" where
  "Expression_rpow self other h =
     (case Number_init other h of Inl err \<Rightarrow> Inl err
      | Inr (n, h') \<Rightarrow> Inr (new Pow_cls [n, self] None h'))"

subsection \<open>How Python evaluates a binary operator\<close>

text \<open>
  Every object of the heap is an instance of \<^verbatim>\<open>Expression\<close>. For \<^verbatim>\<open>a + b\<close> Python calls
  \<^verbatim>\<open>a.__add__(b)\<close> when \<open>a\<close> is such an object. When \<open>a\<close> is an integer, a float, a string or
  \<^verbatim>\<open>None\<close> and \<open>b\<close> is an expression object, the type of \<open>a\<close> does not handle \<open>b\<close> and Python
  calls the reflected hook \<^verbatim>\<open>b.__radd__(a)\<close>. When neither is an expression object the
  result is Python's own arithmetic, which is not part of the module: it is the
  parameter \<open>prim\<close>, applied to the operator's symbol and the two values.
\<close>

definition is_expression :: "heap \<Rightarrow> pyval \<Rightarrow> bool" where
  "is_expression h v \<longleftrightarrow> get_obj h v \<noteq> None"

type_synonym builtin_op = "string \<Rightarrow> pyval \<Rightarrow> pyval \<Rightarrow> error + pyval"

definition builtin :: "builtin_op \<Rightarrow> string \<Rightarrow> pyval \<Rightarrow> pyval \<Rightarrow> heap \<Rightarrow> error + pyval \<times> heap" where
  "builtin prim opname a b h = (case prim opname a b of Inl err \<Rightarrow> Inl err | Inr v \<Rightarrow> Inr (v, h))"

definition py_add :: "builtin_op \<Rightarrow> pyval \<Rightarrow> pyval \<Rightarrow> heap \<Rightarrow> error + pyval \<times> heap" where
  "py_add prim a b h =
     (if is_expression h a then Expression_add a b h
      else if is_expression h b then Expression_radd b a h
      else builtin prim ''+'' a b h)"

definition py_sub :: "builtin_op \<Rightarrow> pyval \<Rightarrow> pyval \<Rightarrow> heap \<Rightarrow> error + pyval \<times> heap" where
  "py_sub prim a b h =
     (if is_expression h a then Expression_sub a b h
      else if is_expression h b then Expression_rsub b a h
      else builtin prim ''-'' a b h)"

definition py_mul :: "builtin_op \<Rightarrow> pyval \<Rightarrow> pyval \<Rightarrow> heap \<Rightarrow> error + pyval \<times> heap" where
  "py_mul prim a b h =
     (if is_expression h a then Expression_mul a b h
      else if is_expression h b then Expression_rmul b a h
      else builtin prim ''*'' a b h)"

definition py_truediv :: "builtin_op \<Rightarrow> pyval \<Rightarrow> pyval \<Rightarrow> heap \<Rightarrow> error + pyval \<times> heap" where
  "py_truediv prim a b h =
     (if is_expression h a then Expression_truediv a b h
      else if is_expression h b then Expression_rtruediv b a h
      else builtin prim ''/'' a b h)"

definition py_pow :: "builtin_op \<Rightarrow> pyval \<Rightarrow> pyval \<Rightarrow> heap \<Rightarrow> error + pyval \<times> heap" where
  "py_pow prim a b h =
     (if is_expression h a then Expression_pow a b h
      else if is_expression h b then Expression_rpow b a h
      else builtin prim ''**'' a b h)"

text \<open>
  The comparison \<^verbatim>\<open>a == b\<close>: numbers compare by value across \<^verbatim>\<open>int\<close> and \<^verbatim>\<open>float\<close>, strings by
  contents, expression objects by identity (the classes define no \<^verbatim>\<open>__eq__\<close>).
\<close>

fun py_eq :: "pyval \<Rightarrow> pyval \<Rightarrow> bool" where
  "py_eq (PyInt i) (PyInt j) = (i = j)"
| "py_eq (PyInt i) (PyFloat y) = (real_of_int i = y)"
| "py_eq (PyFloat x) (PyInt j) = (x = real_of_int j)"
| "py_eq (PyFloat x) (PyFloat y) = (x = y)"
| "py_eq (PyStr s) (PyStr t) = (s = t)"
| "py_eq PyNone PyNone = True"
| "py_eq (PyRef a) (PyRef b) = (a = b)"
| "py_eq _ _ = False"

section \<open>Rendering\<close>

text \<open>The class attributes \<^verbatim>\<open>precedence\<close> and \<^verbatim>\<open>exp_symbol\<close>, inherited along the hierarchy.\<close>

fun precedence :: "cls \<Rightarrow> int option" where
  "precedence Terminal = Some 0"
| "precedence Number = Some 0"
| "precedence Symbol = Some 0"
| "precedence Add = Some 3"
| "precedence Sub = Some 3"
| "precedence Mul = Some 2"
| "precedence Div = Some 2"
| "precedence Pow_cls = Some 1"
| "precedence Expression = None"
| "precedence Operator = None"

fun exp_symbol :: "cls \<Rightarrow> string option" where
  "exp_symbol Add = Some ''+''"
| "exp_symbol Sub = Some ''-''"
| "exp_symbol Mul = Some ''*''"
| "exp_symbol Div = Some ''/''"
| "exp_symbol Pow_cls = Some ''^''"
| "exp_symbol _ = None"

text \<open>The attribute access \<^verbatim>\<open>a.precedence\<close> on any value.\<close>

definition precedence_of :: "heap \<Rightarrow> pyval \<Rightarrow> error + int" where
  "precedence_of h a =
     (case get_obj h a of None \<Rightarrow> Inl AttributeError
      | Some ob \<Rightarrow> (case precedence (cls_of ob) of None \<Rightarrow> Inl AttributeError | Some p \<Rightarrow> Inr p))"

text \<open>Indexing \<^verbatim>\<open>xs[i]\<close> with a literal index \<open>i \<ge> 0\<close>.\<close>

definition index :: "'a list \<Rightarrow> nat \<Rightarrow> error + 'a" where
  "index xs i = (if i < length xs then Inr (xs ! i) else Inl IndexError)"

text \<open>Sequencing of steps that may raise.\<close>

definition and_then :: "error + 'a \<Rightarrow> ('a \<Rightarrow> error + 'b) \<Rightarrow> error + 'b" where
  "and_then m f = (case m of Inl err \<Rightarrow> Inl err | Inr x \<Rightarrow> f x)"

text \<open>
  Python's \<^verbatim>\<open>str\<close> on a value whose class is not one of the module's: a string is its own
  text; the formatting of numbers, of \<^verbatim>\<open>None\<close> and of an object without \<^verbatim>\<open>__str__\<close> is the
  parameter \<open>fmt\<close>.
\<close>

definition builtin_str :: "(pyval \<Rightarrow> string) \<Rightarrow> pyval \<Rightarrow> string" where
  "builtin_str fmt v = (case v of PyStr s \<Rightarrow> s | _ \<Rightarrow> fmt v)"

text \<open>\<^verbatim>\<open>"(" + s + ")"\<close> when the operand binds looser than the operator.\<close>

definition wrap :: "bool \<Rightarrow> string \<Rightarrow> string" where
  "wrap parens s = (if parens then ''('' @ s @ '')'' else s)"

text \<open>
  \<^verbatim>\<open>Operator.__str__\<close>; \<open>str\<close> is the call \<^verbatim>\<open>str(x)\<close> on an operand.
\<close>

definition Operator_str :: "(pyval \<Rightarrow> error + string) \<Rightarrow> heap \<Rightarrow> obj \<Rightarrow> error + string" where
  "Operator_str str h self =
     and_then (index (operands self) 0) (\<lambda>a.
     and_then (index (operands self) 1) (\<lambda>b.
     and_then (precedence_of h a) (\<lambda>pa.
     and_then (case precedence (cls_of self) of None \<Rightarrow> Inl AttributeError | Some p \<Rightarrow> Inr p) (\<lambda>p.
     and_then (str a) (\<lambda>sa.
     and_then (precedence_of h b) (\<lambda>pb.
     and_then (str b) (\<lambda>sb.
     and_then (case exp_symbol (cls_of self) of None \<Rightarrow> Inl AttributeError | Some y \<Rightarrow> Inr y) (\<lambda>symb.
       Inr (wrap (pa > p) sa @ '' '' @ symb @ '' '' @ wrap (pb > p) sb)))))))))"

text \<open>
  \<^verbatim>\<open>str(v)\<close>. The methods call \<^verbatim>\<open>str\<close> on operands and payloads, so the rendering recurses
  through the heap; the second argument is the number of nested \<^verbatim>\<open>__str__\<close> calls the
  interpreter still allows, and a call beyond it raises \<^verbatim>\<open>RecursionError\<close>. \<^verbatim>\<open>Terminal.__str__\<close>
  is \<^verbatim>\<open>str(self.value)\<close>; a plain \<^verbatim>\<open>Expression\<close> has no \<^verbatim>\<open>__str__\<close> of its own.
\<close>

fun str_expr :: "(pyval \<Rightarrow> string) \<Rightarrow> nat \<Rightarrow> heap \<Rightarrow> pyval \<Rightarrow> error + string" where
  "str_expr fmt 0 h v =
     (case get_obj h v of
        None \<Rightarrow> Inr (builtin_str fmt v)
      | Some self \<Rightarrow>
          if cls_of self = Expression then Inr (fmt v) else Inl RecursionError)"
| "str_expr fmt (Suc d) h v =
     (case get_obj h v of
        None \<Rightarrow> Inr (builtin_str fmt v)
      | Some self \<Rightarrow>
          if cls_of self = Expression then Inr (fmt v)
          else if cls_of self \<in> {Terminal, Number, Symbol} then
            (case value_attr self of None \<Rightarrow> Inl AttributeError
             | Some payload \<Rightarrow> str_expr fmt d h payload)
          else Operator_str (\<lambda>x. str_expr fmt d h x) h self)"

section \<open>Differentiation\<close>

text \<open>
  \<^verbatim>\<open>differentiate\<close> is a \<^verbatim>\<open>singledispatch\<close> function: the class of its first argument
  selects the registered rule. Each rule gets the node \<open>expr\<close>, the results \<open>os\<close> for its
  operands and the keyword arguments, a dictionary from names to values.
\<close>

type_synonym kwargs = "string \<rightharpoonup> pyval"

text \<open>The attribute access \<^verbatim>\<open>expr.value\<close>.\<close>

definition value_of :: "heap \<Rightarrow> pyval \<Rightarrow> error + pyval" where
  "value_of h e =
     (case get_obj h e of None \<Rightarrow> Inl AttributeError
      | Some ob \<Rightarrow> (case value_attr ob of None \<Rightarrow> Inl AttributeError | Some v \<Rightarrow> Inr v))"

definition differentiate_Number ::
  "pyval \<Rightarrow> pyval list \<Rightarrow> kwargs \<Rightarrow> heap \<Rightarrow> error + pyval \<times> heap" where
  "differentiate_Number expr os kwargs h = Number_init (PyFloat 0) h"

text \<open>The rule for \<^verbatim>\<open>Symbol\<close> has the keyword-only parameter \<^verbatim>\<open>var\<close>; a call without it raises.\<close>

definition differentiate_Symbol ::
  "pyval \<Rightarrow> pyval list \<Rightarrow> kwargs \<Rightarrow> heap \<Rightarrow> error + pyval \<times> heap" where
  "differentiate_Symbol expr os kwargs h =
     (case kwargs ''var'' of
        None \<Rightarrow> Inl TypeError
      | Some var \<Rightarrow>
          and_then (value_of h expr) (\<lambda>v.
            if py_eq v var then Number_init (PyFloat 1) h else Number_init (PyFloat 0) h))"

definition differentiate_Add ::
  "builtin_op \<Rightarrow> pyval \<Rightarrow> pyval list \<Rightarrow> kwargs \<Rightarrow> heap \<Rightarrow> error + pyval \<times> heap" where
  "differentiate_Add prim expr os kwargs h =
     and_then (index os 0) (\<lambda>o0.
     and_then (index os 1) (\<lambda>o1.
       py_add prim o0 o1 h))"

definition differentiate_Sub ::
  "builtin_op \<Rightarrow> pyval \<Rightarrow> pyval list \<Rightarrow> kwargs \<Rightarrow> heap \<Rightarrow> error + pyval \<times> heap" where
  "differentiate_Sub prim expr os kwargs h =
     and_then (index os 0) (\<lambda>o0.
     and_then (index os 1) (\<lambda>o1.
       py_sub prim o0 o1 h))"

text \<open>\<^verbatim>\<open>o[0] * expr.operands[1] + o[1] * expr.operands[0]\<close>, evaluated from left to right.\<close>

definition differentiate_Mul ::
  "builtin_op \<Rightarrow> pyval \<Rightarrow> pyval list \<Rightarrow> kwargs \<Rightarrow> heap \<Rightarrow> error + pyval \<times> heap" where
  "differentiate_Mul prim expr os kwargs h =
     and_then (index os 0) (\<lambda>o0.
     and_then (operands_of h expr) (\<lambda>ops.
     and_then (index ops 1) (\<lambda>b.
     and_then (py_mul prim o0 b h) (\<lambda>(t1, h1).
     and_then (index os 1) (\<lambda>o1.
     and_then (operands_of h1 expr) (\<lambda>ops1.
     and_then (index ops1 0) (\<lambda>a.
     and_then (py_mul prim o1 a h1) (\<lambda>(t2, h2).
       py_add prim t1 t2 h2))))))))"

text \<open>
  \<^verbatim>\<open>(o[0] * expr.operands[1] - expr.operands[0] * o[1]) / (expr.operands[1]**Number(2))\<close>.
\<close>

definition differentiate_Div ::
  "builtin_op \<Rightarrow> pyval \<Rightarrow> pyval list \<Rightarrow> kwargs \<Rightarrow> heap \<Rightarrow> error + pyval \<times> heap" where
  "differentiate_Div prim expr os kwargs h =
     and_then (index os 0) (\<lambda>o0.
     and_then (operands_of h expr) (\<lambda>ops.
     and_then (index ops 1) (\<lambda>b.
     and_then (py_mul prim o0 b h) (\<lambda>(t1, h1).
     and_then (operands_of h1 expr) (\<lambda>ops1.
     and_then (index ops1 0) (\<lambda>a.
     and_then (index os 1) (\<lambda>o1.
     and_then (py_mul prim a o1 h1) (\<lambda>(t2, h2).
     and_then (py_sub prim t1 t2 h2) (\<lambda>(t3, h3).
     and_then (operands_of h3 expr) (\<lambda>ops3.
     and_then (index ops3 1) (\<lambda>b3.
     and_then (Number_init (PyInt 2) h3) (\<lambda>(two, h4).
     and_then (py_pow prim b3 two h4) (\<lambda>(t5, h5).
       py_truediv prim t3 t5 h5)))))))))))))"

text \<open>
  \<^verbatim>\<open>expr.operands[1] * (expr.operands[0] ** (expr.operands[1] - 1)) * o[0]\<close>; the source
  comments that the exponent is assumed not to be the variable.
\<close>

definition differentiate_Pow ::
  "builtin_op \<Rightarrow> pyval \<Rightarrow> pyval list \<Rightarrow> kwargs \<Rightarrow> heap \<Rightarrow> error + pyval \<times> heap" where
  "differentiate_Pow prim expr os kwargs h =
     and_then (operands_of h expr) (\<lambda>ops.
     and_then (index ops 1) (\<lambda>b.
     and_then (index ops 0) (\<lambda>a.
     and_then (index ops 1) (\<lambda>b1.
     and_then (py_sub prim b1 (PyInt 1) h) (\<lambda>(t1, h1).
     and_then (py_pow prim a t1 h1) (\<lambda>(t2, h2).
     and_then (py_mul prim b t2 h2) (\<lambda>(t3, h3).
     and_then (index os 0) (\<lambda>o0.
       py_mul prim t3 o0 h3))))))))"

text \<open>
  The dispatch. A value that is no object of the module, and an object whose class has
  no registered rule along its ancestry (\<^verbatim>\<open>Expression\<close>, \<^verbatim>\<open>Operator\<close>, \<^verbatim>\<open>Terminal\<close>), reach the
  base function, which raises \<^verbatim>\<open>NotImplementedError\<close>.
\<close>

definition differentiate ::
  "builtin_op \<Rightarrow> pyval \<Rightarrow> pyval list \<Rightarrow> kwargs \<Rightarrow> heap \<Rightarrow> error + pyval \<times> heap" where
  "differentiate prim expr os kwargs h =
     (case get_obj h expr of
        None \<Rightarrow> Inl NotImplementedError
      | Some self \<Rightarrow>
          (case cls_of self of
             Number \<Rightarrow> differentiate_Number expr os kwargs h
           | Symbol \<Rightarrow> differentiate_Symbol expr os kwargs h
           | Add \<Rightarrow> differentiate_Add prim expr os kwargs h
           | Sub \<Rightarrow> differentiate_Sub prim expr os kwargs h
           | Mul \<Rightarrow> differentiate_Mul prim expr os kwargs h
           | Div \<Rightarrow> differentiate_Div prim expr os kwargs h
           | Pow_cls \<Rightarrow> differentiate_Pow prim expr os kwargs h
           | _ \<Rightarrow> Inl NotImplementedError))"

section \<open>Expression graphs\<close>

text \<open>
  The operand relation of a heap, the nodes reachable from an expression, and what it
  means for the expression to be the root of a finite acyclic graph of expression
  objects: every reachable value is an object of the heap and none lies on a cycle.
\<close>

definition edges :: "heap \<Rightarrow> (pyval \<times> pyval) set" where
  "edges h = {(a, b). \<exists>ops. operands_of h a = Inr ops \<and> b \<in> set ops}"

definition reachable :: "heap \<Rightarrow> pyval \<Rightarrow> pyval set" where
  "reachable h expr = (edges h)\<^sup>* `` {expr}"

definition expression_dag :: "heap \<Rightarrow> pyval \<Rightarrow> bool" where
  "expression_dag h expr \<longleftrightarrow>
     (\<forall>v \<in> reachable h expr. get_obj h v \<noteq> None \<and> (v, v) \<notin> (edges h)\<^sup>+)"

text \<open>
  Objects are immutable once built, so the operands of an object were created before
  it: in a heap built by the constructors every operand has a smaller address.
\<close>

definition heap_ordered :: "heap \<Rightarrow> bool" where
  "heap_ordered h \<longleftrightarrow>
     (\<forall>r < length h. \<forall>c \<in> set (operands (h ! r)). case c of PyRef i \<Rightarrow> i < r | _ \<Rightarrow> False)"

text \<open>A caller-supplied function that creates objects but leaves the existing ones alone.\<close>

definition allocates_only :: "(pyval \<Rightarrow> 'r list \<Rightarrow> 'k \<Rightarrow> heap \<Rightarrow> error + 'r \<times> heap) \<Rightarrow> bool" where
  "allocates_only fn \<longleftrightarrow> (\<forall>e os kw h r h'. fn e os kw h = Inr (r, h') \<longrightarrow> prefix h h')"

subsection \<open>The record of invocations\<close>

text \<open>
  \<open>memo_of cs\<close> is the dictionary that the invocations \<open>cs\<close> leave behind: each node maps
  to the result of its latest invocation. An invocation \<open>(e, os, k, r)\<close> is in order after
  the invocations \<open>prior\<close> when \<open>k\<close> is the keyword context of the traversal, every operand of
  \<open>e\<close> has a result in \<open>prior\<close>, \<open>os\<close> lists these results in operand order, and \<open>r\<close> is what \<open>fn\<close>
  returned for these arguments.
\<close>

definition memo_of :: "(pyval \<times> 'r list \<times> 'k \<times> 'r) list \<Rightarrow> pyval \<rightharpoonup> 'r" where
  "memo_of cs = foldl (\<lambda>m c. m(fst c \<mapsto> snd (snd (snd c)))) Map.empty cs"

definition call_ok ::
  "(pyval \<Rightarrow> 'r list \<Rightarrow> 'k \<Rightarrow> heap \<Rightarrow> error + 'r \<times> heap) \<Rightarrow> heap \<Rightarrow> 'k \<Rightarrow>
   (pyval \<times> 'r list \<times> 'k \<times> 'r) list \<Rightarrow> pyval \<times> 'r list \<times> 'k \<times> 'r \<Rightarrow> bool" where
  "call_ok fn h kw prior c \<longleftrightarrow>
     (case c of (e, os, k, r) \<Rightarrow>
        k = kw \<and>
        (\<exists>ops. operands_of h e = Inr ops \<and> map (memo_of prior) ops = map Some os) \<and>
        (\<exists>h1 h2. fn e os kw h1 = Inr (r, h2)))"

definition calls_ok ::
  "(pyval \<Rightarrow> 'r list \<Rightarrow> 'k \<Rightarrow> heap \<Rightarrow> error + 'r \<times> heap) \<Rightarrow> heap \<Rightarrow> 'k \<Rightarrow>
   (pyval \<times> 'r list \<times> 'k \<times> 'r) list \<Rightarrow> bool" where
  "calls_ok fn h kw cs \<longleftrightarrow> (\<forall>i < length cs. call_ok fn h kw (take i cs) (cs ! i))"

subsection \<open>The loop invariant and the termination measure\<close>

definition pv_inv ::
  "(pyval \<Rightarrow> 'r list \<Rightarrow> 'k \<Rightarrow> heap \<Rightarrow> error + 'r \<times> heap) \<Rightarrow> 'k \<Rightarrow> heap \<Rightarrow> pyval set \<Rightarrow> pyval \<Rightarrow>
   ('r, 'k) pv_state \<Rightarrow> bool" where
  "pv_inv fn kw h N expr s \<longleftrightarrow>
     prefix h (heap s) \<and> set (stack s) \<subseteq> N \<and>
     visited s = memo_of (calls s) \<and> calls_ok fn h kw (calls s) \<and>
     (if stack s = [] then calls s \<noteq> [] \<and> fst (last (calls s)) = expr
      else last (stack s) = expr)"

text \<open>
  A graph on the node set \<open>N\<close> is ranked when every operand has a smaller rank than its
  parent and no node has more than \<open>B\<close> operands.
\<close>

definition ranked :: "heap \<Rightarrow> pyval set \<Rightarrow> (pyval \<Rightarrow> nat) \<Rightarrow> nat \<Rightarrow> bool" where
  "ranked h N rk B \<longleftrightarrow>
     (\<forall>v \<in> N. \<exists>ob. get_obj h v = Some ob \<and> length (operands ob) \<le> B \<and>
        (\<forall>c \<in> set (operands ob). c \<in> N \<and> rk c < rk v))"

definition children :: "heap \<Rightarrow> pyval \<Rightarrow> pyval list" where
  "children h v = (case operands_of h v of Inl _ \<Rightarrow> [] | Inr ops \<Rightarrow> ops)"

text \<open>
  A stack entry costs one iteration when all its operands are visited or lie above it
  on the stack, and at most its weight otherwise; \<open>D\<close> collects the visited nodes and the
  entries above.
\<close>

fun pot :: "(pyval \<Rightarrow> pyval list) \<Rightarrow> (pyval \<Rightarrow> nat) \<Rightarrow> pyval set \<Rightarrow> pyval list \<Rightarrow> nat" where
  "pot ch w D [] = 0"
| "pot ch w D (e # rest) = (if set (ch e) \<subseteq> D then 1 else w e) + pot ch w (insert e D) rest"

definition weight :: "(pyval \<Rightarrow> nat) \<Rightarrow> nat \<Rightarrow> pyval \<Rightarrow> nat" where
  "weight rk B v = (B + 2) ^ Suc (rk v)"

definition potential :: "heap \<Rightarrow> (pyval \<Rightarrow> nat) \<Rightarrow> nat \<Rightarrow> ('r, 'k) pv_state \<Rightarrow> nat" where
  "potential h rk B s = pot (children h) (weight rk B) (dom (visited s)) (stack s)"

section \<open>Example expressions\<close>

text \<open>A combining function for the examples: the size of the expression as a tree.\<close>

definition count_nodes :: "pyval \<Rightarrow> nat list \<Rightarrow> unit \<Rightarrow> heap \<Rightarrow> error + nat \<times> heap" where
  "count_nodes e os kw h = Inr (Suc (sum_list os), h)"

text \<open>\<^verbatim>\<open>x = Symbol("x"); Add(x, x)\<close>: one leaf, twice an operand of the same parent.\<close>

definition shared_leaf :: heap where
  "shared_leaf =
     [\<lparr>cls_of = Symbol, operands = [], value_attr = Some (PyStr ''x'')\<rparr>,
      \<lparr>cls_of = Add, operands = [PyRef 0, PyRef 0], value_attr = None\<rparr>]"

text \<open>\<^verbatim>\<open>x = Symbol("x"); y = Symbol("y"); Add(x, Mul(x, y))\<close>: one leaf under two parents.\<close>

definition shared_two_parents :: heap where
  "shared_two_parents =
     [\<lparr>cls_of = Symbol, operands = [], value_attr = Some (PyStr ''x'')\<rparr>,
      \<lparr>cls_of = Symbol, operands = [], value_attr = Some (PyStr ''y'')\<rparr>,
      \<lparr>cls_of = Mul, operands = [PyRef 0, PyRef 1], value_attr = None\<rparr>,
      \<lparr>cls_of = Add, operands = [PyRef 0, PyRef 2], value_attr = None\<rparr>]"

text \<open>\<^verbatim>\<open>Symbol("x") ** Number(3)\<close>.\<close>

definition power_example :: heap where
  "power_example =
     [\<lparr>cls_of = Symbol, operands = [], value_attr = Some (PyStr ''x'')\<rparr>,
      \<lparr>cls_of = Number, operands = [], value_attr = Some (PyInt 3)\<rparr>,
      \<lparr>cls_of = Pow_cls, operands = [PyRef 0, PyRef 1], value_attr = None\<rparr>]"

text \<open>\<^verbatim>\<open>Symbol("x") * Symbol("x")\<close>, two distinct leaves with the same name.\<close>

definition product_example :: heap where
  "product_example =
     [\<lparr>cls_of = Symbol, operands = [], value_attr = Some (PyStr ''x'')\<rparr>,
      \<lparr>cls_of = Symbol, operands = [], value_attr = Some (PyStr ''x'')\<rparr>,
      \<lparr>cls_of = Mul, operands = [PyRef 0, PyRef 1], value_attr = None\<rparr>]"

text \<open>\<^verbatim>\<open>(Symbol("a") + Symbol("b")) * Symbol("c")\<close> at address 4, \<^verbatim>\<open>a + b * c\<close> at address 6.\<close>

definition render_example :: heap where
  "render_example =
     [\<lparr>cls_of = Symbol, operands = [], value_attr = Some (PyStr ''a'')\<rparr>,
      \<lparr>cls_of = Symbol, operands = [], value_attr = Some (PyStr ''b'')\<rparr>,
      \<lparr>cls_of = Symbol, operands = [], value_attr = Some (PyStr ''c'')\<rparr>,
      \<lparr>cls_of = Add, operands = [PyRef 0, PyRef 1], value_attr = None\<rparr>,
      \<lparr>cls_of = Mul, operands = [PyRef 3, PyRef 2], value_attr = None\<rparr>,
      \<lparr>cls_of = Mul, operands = [PyRef 1, PyRef 2], value_attr = None\<rparr>,
      \<lparr>cls_of = Add, operands = [PyRef 0, PyRef 5], value_attr = None\<rparr>]"

text \<open>A plain \<^verbatim>\<open>Expression()\<close>, a symbol, and a plain \<^verbatim>\<open>Operator(x, x)\<close>.\<close>

definition plain_nodes :: heap where
  "plain_nodes =
     [\<lparr>cls_of = Expression, operands = [], value_attr = None\<rparr>,
      \<lparr>cls_of = Symbol, operands = [], value_attr = Some (PyStr ''x'')\<rparr>,
      \<lparr>cls_of = Operator, operands = [PyRef 1, PyRef 1], value_attr = None\<rparr>]"

text \<open>
  The heap after \<^verbatim>\<open>postvisitor(Symbol("x") * Symbol("x"), differentiate, var="x")\<close>; the
  derivative is at address 7.
\<close>

definition product_derivative :: heap where
  "product_derivative =
     product_example @
        [\<lparr>cls_of = Number, operands = [], value_attr = Some (PyFloat 1)\<rparr>,
         \<lparr>cls_of = Number, operands = [], value_attr = Some (PyFloat 1)\<rparr>,
         \<lparr>cls_of = Mul, operands = [PyRef 4, PyRef 1], value_attr = None\<rparr>,
         \<lparr>cls_of = Mul, operands = [PyRef 3, PyRef 0], value_attr = None\<rparr>,
         \<lparr>cls_of = Add, operands = [PyRef 5, PyRef 6], value_attr = None\<rparr>]"

text \<open>
  The heap after \<^verbatim>\<open>postvisitor(Symbol("x") ** Number(3), differentiate, var="x")\<close>; the
  derivative is at address 9.
\<close>

definition power_derivative :: heap where
  "power_derivative =
     power_example @
        [\<lparr>cls_of = Number, operands = [], value_attr = Some (PyFloat 0)\<rparr>,
         \<lparr>cls_of = Number, operands = [], value_attr = Some (PyFloat 1)\<rparr>,
         \<lparr>cls_of = Number, operands = [], value_attr = Some (PyInt 1)\<rparr>,
         \<lparr>cls_of = Sub, operands = [PyRef 1, PyRef 5], value_attr = None\<rparr>,
         \<lparr>cls_of = Pow_cls, operands = [PyRef 0, PyRef 6], value_attr = None\<rparr>,
         \<lparr>cls_of = Mul, operands = [PyRef 1, PyRef 7], value_attr = None\<rparr>,
         \<lparr>cls_of = Mul, operands = [PyRef 8, PyRef 4], value_attr = None\<rparr>]"

text \<open>
  The arithmetic reading of an expression under an assignment of reals to the variable
  names. The module has no evaluator; this reading only serves to say that two
  expressions are equivalent, that is, denote the same number under every assignment.
  A power with a natural exponent is the iterated product.
\<close>

definition arith :: "cls \<Rightarrow> real \<Rightarrow> real \<Rightarrow> real option" where
  "arith c x y =
     (case c of
        Add \<Rightarrow> Some (x + y)
      | Sub \<Rightarrow> Some (x - y)
      | Mul \<Rightarrow> Some (x * y)
      | Div \<Rightarrow> Some (x / y)
      | Pow_cls \<Rightarrow> Some (if 0 \<le> y \<and> y = of_int \<lfloor>y\<rfloor> then x ^ nat \<lfloor>y\<rfloor> else x powr y)
      | _ \<Rightarrow> None)"

fun denote :: "(string \<Rightarrow> real) \<Rightarrow> nat \<Rightarrow> heap \<Rightarrow> pyval \<Rightarrow> real option" where
  "denote env 0 h v = None"
| "denote env (Suc d) h v =
     (case get_obj h v of
        None \<Rightarrow> None
      | Some self \<Rightarrow>
          if cls_of self = Number then
            (case value_attr self of
               Some (PyInt i) \<Rightarrow> Some (of_int i)
             | Some (PyFloat x) \<Rightarrow> Some x
             | _ \<Rightarrow> None)
          else if cls_of self = Symbol then
            (case value_attr self of Some (PyStr s) \<Rightarrow> Some (env s) | _ \<Rightarrow> None)
          else
            (case operands self of
               [a, b] \<Rightarrow>
                 (case denote env d h a of
                    None \<Rightarrow> None
                  | Some x \<Rightarrow>
                      (case denote env d h b of
                         None \<Rightarrow> None
                       | Some y \<Rightarrow> arith (cls_of self) x y))
             | _ \<Rightarrow> None))"

section \<open>The traversal on a finite acyclic graph\<close>

subsection \<open>Auxiliary facts\<close>

lemma pot_mono: "(\<And>x. 1 \<le> w x) \<Longrightarrow> D \<subseteq> D' \<Longrightarrow> pot ch w D' st \<le> pot ch w D st"
proof (induction st arbitrary: D D')
  case Nil then show ?case by simp
next
  case (Cons e st)
  have "pot ch w (insert e D') st \<le> pot ch w (insert e D) st"
    using Cons.prems by (intro Cons.IH) auto
  moreover have "(if set (ch e) \<subseteq> D' then 1 else w e) \<le> (if set (ch e) \<subseteq> D then 1 else w e)"
    using Cons.prems(1)[of e] Cons.prems(2) by auto
  ultimately show ?case by simp
qed

lemma pot_append: "pot ch w D (xs @ ys) = pot ch w D xs + pot ch w (D \<union> set xs) ys"
  by (induction xs arbitrary: D) auto

lemma pot_le_sum: "(\<And>x. 1 \<le> w x) \<Longrightarrow> pot ch w D xs \<le> sum_list (map w xs)"
proof (induction xs arbitrary: D)
  case Nil then show ?case by simp
next
  case (Cons e xs)
  have "pot ch w (insert e D) xs \<le> sum_list (map w xs)" using Cons.prems by (intro Cons.IH)
  moreover have "(if set (ch e) \<subseteq> D then 1 else w e) \<le> w e" using Cons.prems[of e] by auto
  ultimately show ?case by simp
qed

lemma loop_rule:
  assumes I: "I s"
    and step: "\<And>s e rest s'. I s \<Longrightarrow> stack s = e # rest \<Longrightarrow>
                 postvisitor_body fn kw e (s\<lparr>stack := rest\<rparr>) = Inr s' \<Longrightarrow> I s' \<and> m s' < (m s :: nat)"
    and err: "\<And>s e rest x. I s \<Longrightarrow> stack s = e # rest \<Longrightarrow>
                 postvisitor_body fn kw e (s\<lparr>stack := rest\<rparr>) = Inl x \<Longrightarrow> E x"
  shows "\<exists>res. postvisitor_loop fn kw s = Some res \<and>
           (case res of Inl x \<Rightarrow> E x | Inr f \<Rightarrow> I f \<and> stack f = [])"
  using I
proof (induction "m s" arbitrary: s rule: less_induct)
  case less
  show ?case
  proof (cases "stack s")
    case Nil
    then show ?thesis using less.prems by (subst postvisitor_loop.simps) simp
  next
    case (Cons e rest)
    show ?thesis
    proof (cases "postvisitor_body fn kw e (s\<lparr>stack := rest\<rparr>)")
      case (Inl x)
      then show ?thesis using err[OF less.prems Cons Inl] Cons
        by (subst postvisitor_loop.simps) simp
    next
      case (Inr s')
      from step[OF less.prems Cons Inr] have "I s'" "m s' < m s" by auto
      from less.hyps[OF this(2) this(1)] show ?thesis using Cons Inr
        by (subst postvisitor_loop.simps) simp
    qed
  qed
qed

lemma memo_of_snoc: "memo_of (cs @ [(e, os, k, r)]) = (memo_of cs)(e \<mapsto> r)"
  by (simp add: memo_of_def)

lemma calls_ok_snoc: "calls_ok fn h kw (cs @ [c]) \<longleftrightarrow> calls_ok fn h kw cs \<and> call_ok fn h kw cs c"
  by (auto simp: calls_ok_def nth_append less_Suc_eq)

lemma get_obj_prefix: "prefix h h' \<Longrightarrow> get_obj h v = Some ob \<Longrightarrow> get_obj h' v = Some ob"
  by (auto simp: get_obj_def prefix_def nth_append split: pyval.splits if_splits)

lemma lookup_all_Inr: "lookup_all m xs = Inr rs \<Longrightarrow> map m xs = map Some rs"
  by (induction xs arbitrary: rs) (auto split: option.splits sum.splits)

lemma lookup_all_total: "\<forall>x \<in> set xs. m x \<noteq> None \<Longrightarrow> \<exists>rs. lookup_all m xs = Inr rs"
  by (induction xs) auto

lemma sum_list_bound: "\<forall>x \<in> set xs. f x \<le> (M::nat) \<Longrightarrow> sum_list (map f xs) \<le> length xs * M"
  by (induction xs) auto

lemma weight_pos: "1 \<le> weight rk B x"
proof -
  have "0 < (B + 2) ^ Suc (rk x)" by (rule zero_less_power) simp
  then show ?thesis unfolding weight_def by linarith
qed

lemma push_decreases:
  assumes ops: "children h e = ops" and len: "length ops \<le> B"
    and rk: "\<forall>c \<in> set ops. rk c < rk e"
    and U: "U = filter (\<lambda>c. c \<notin> D) ops" "U \<noteq> []"
  shows "pot (children h) (weight rk B) D (rev U @ e # rest)
         < pot (children h) (weight rk B) D (e # rest)"
proof -
  let ?w = "weight rk B" and ?ch = "children h"
  have sub: "set ops \<subseteq> D \<union> set (rev U)" using U by auto
  have notsub: "\<not> set ops \<subseteq> D" using U by (auto simp: filter_empty_conv)
  have "\<forall>c \<in> set (rev U). ?w c \<le> (B + 2) ^ rk e"
  proof
    fix c assume "c \<in> set (rev U)"
    then have "rk c < rk e" using U rk by auto
    then have "Suc (rk c) \<le> rk e" by simp
    then show "?w c \<le> (B + 2) ^ rk e" unfolding weight_def
      by (intro power_increasing) auto
  qed
  then have "sum_list (map ?w (rev U)) \<le> length (rev U) * (B + 2) ^ rk e"
    by (rule sum_list_bound)
  moreover have "length (rev U) \<le> B" using U len
    by (metis length_filter_le length_rev le_trans)
  ultimately have s1: "sum_list (map ?w (rev U)) \<le> B * (B + 2) ^ rk e"
    by (meson le_trans mult_le_mono1)
  have p1: "pot ?ch ?w D (rev U) \<le> sum_list (map ?w (rev U))"
    by (rule pot_le_sum) (rule weight_pos)
  have p2: "pot ?ch ?w (insert e (D \<union> set (rev U))) rest \<le> pot ?ch ?w (insert e D) rest"
    by (rule pot_mono) (use weight_pos in auto)
  have lhs: "pot ?ch ?w D (rev U @ e # rest)
             = pot ?ch ?w D (rev U) + 1 + pot ?ch ?w (insert e (D \<union> set (rev U))) rest"
    using sub ops by (simp add: pot_append)
  have rhs: "pot ?ch ?w D (e # rest) = ?w e + pot ?ch ?w (insert e D) rest"
    using notsub ops by simp
  have "B * (B + 2) ^ rk e + 1 < ?w e"
  proof -
    have "1 \<le> (B + 2) ^ rk e" by simp
    then have "B * (B + 2) ^ rk e + 1 < B * (B + 2) ^ rk e + 2 * (B + 2) ^ rk e" by linarith
    also have "\<dots> = ?w e" by (simp add: weight_def algebra_simps)
    finally show ?thesis .
  qed
  then show ?thesis using lhs rhs s1 p1 p2 by linarith
qed

lemma body_step:
  assumes rk: "ranked h N rk B" and al: "allocates_only fn"
    and inv: "pv_inv fn kw h N expr s" and st: "stack s = e # rest"
    and body: "postvisitor_body fn kw e (s\<lparr>stack := rest\<rparr>) = Inr s'"
  shows "pv_inv fn kw h N expr s' \<and> potential h rk B s' < potential h rk B s"
proof -
  from inv st have eN: "e \<in> N" and restN: "set rest \<subseteq> N" and pre: "prefix h (heap s)"
    and vis: "visited s = memo_of (calls s)" and cok: "calls_ok fn h kw (calls s)"
    and lst: "last (e # rest) = expr"
    by (auto simp: pv_inv_def)
  from rk eN obtain ob where ob: "get_obj h e = Some ob" and len: "length (operands ob) \<le> B"
    and chN: "\<forall>c \<in> set (operands ob). c \<in> N \<and> rk c < rk e"
    by (auto simp: ranked_def)
  let ?ops = "operands ob"
  have opsh: "operands_of h e = Inr ?ops" using ob by (simp add: operands_of_def)
  have opss: "operands_of (heap s) e = Inr ?ops"
    using get_obj_prefix[OF pre ob] by (simp add: operands_of_def)
  have ch: "children h e = ?ops" using opsh by (simp add: children_def)
  let ?U = "filter (\<lambda>c. visited s c = None) ?ops"
  have Ueq: "?U = filter (\<lambda>c. c \<notin> dom (visited s)) ?ops" by (simp add: dom_def)
  show ?thesis
  proof (cases "?U = []")
    case False
    with body opss have s': "s' = s\<lparr>stack := rev ?U @ e # rest\<rparr>"
      by (simp add: postvisitor_body_def)
    have "pot (children h) (weight rk B) (dom (visited s)) (rev ?U @ e # rest)
          < pot (children h) (weight rk B) (dom (visited s)) (e # rest)"
      using False by (intro push_decreases[OF ch len _ Ueq]) (use chN in auto)
    then have dec: "potential h rk B s' < potential h rk B s"
      by (simp add: potential_def s' st)
    have "set (rev ?U) \<subseteq> N" using chN by auto
    then have "pv_inv fn kw h N expr s'"
      using pre eN restN vis cok lst by (simp add: pv_inv_def s')
    with dec show ?thesis by simp
  next
    case True
    then have allv: "\<forall>c \<in> set ?ops. visited s c \<noteq> None" by (simp add: filter_empty_conv)
    from lookup_all_total[OF this] obtain os where los: "lookup_all (visited s) ?ops = Inr os" ..
    from body opss True los obtain r h' where fn: "fn e os kw (heap s) = Inr (r, h')"
      and s': "s' = s\<lparr>stack := rest, visited := (visited s)(e \<mapsto> r), heap := h',
                      calls := calls s @ [(e, os, kw, r)]\<rparr>"
      by (auto simp: postvisitor_body_def split: sum.splits)
    have pre': "prefix h h'" using al fn pre unfolding allocates_only_def
      by (meson prefix_order.order_trans)
    have sub: "set (children h e) \<subseteq> dom (visited s)" using allv ch by (auto simp: dom_def)
    have dec: "potential h rk B s' < potential h rk B s"
      using sub by (simp add: potential_def s' st)
    have "call_ok fn h kw (calls s) (e, os, kw, r)"
      using opsh lookup_all_Inr[OF los] vis fn by (auto simp: call_ok_def)
    then have "calls_ok fn h kw (calls s @ [(e, os, kw, r)])"
      using cok by (simp add: calls_ok_snoc)
    moreover have "rest = [] \<longrightarrow> e = expr" "rest \<noteq> [] \<longrightarrow> last rest = expr" using lst by auto
    ultimately have "pv_inv fn kw h N expr s'"
      using pre' restN vis by (simp add: pv_inv_def s' memo_of_snoc)
    with dec show ?thesis by simp
  qed
qed

lemma body_error:
  assumes rk: "ranked h N rk B"
    and inv: "pv_inv fn kw h N expr s" and st: "stack s = e # rest"
    and body: "postvisitor_body fn kw e (s\<lparr>stack := rest\<rparr>) = Inl x"
  shows "\<exists>e os h1. fn e os kw h1 = Inl x"
proof -
  from inv st have eN: "e \<in> N" and pre: "prefix h (heap s)" by (auto simp: pv_inv_def)
  from rk eN obtain ob where ob: "get_obj h e = Some ob" by (auto simp: ranked_def)
  have opss: "operands_of (heap s) e = Inr (operands ob)"
    using get_obj_prefix[OF pre ob] by (simp add: operands_of_def)
  show ?thesis
  proof (cases "filter (\<lambda>c. visited s c = None) (operands ob) = []")
    case False
    with body opss show ?thesis by (simp add: postvisitor_body_def)
  next
    case True
    then have "\<forall>c \<in> set (operands ob). visited s c \<noteq> None" by (simp add: filter_empty_conv)
    from lookup_all_total[OF this] obtain os where "lookup_all (visited s) (operands ob) = Inr os" ..
    with body opss True show ?thesis
      by (auto simp: postvisitor_body_def split: sum.splits)
  qed
qed

lemma loop_ranked:
  assumes rk: "ranked h N rk B" and al: "allocates_only fn"
    and inv: "pv_inv fn kw h N expr s"
  shows "\<exists>res. postvisitor_loop fn kw s = Some res \<and>
           (case res of Inl x \<Rightarrow> \<exists>e os h1. fn e os kw h1 = Inl x
            | Inr f \<Rightarrow> pv_inv fn kw h N expr f \<and> stack f = [])"
proof (rule loop_rule[where I = "pv_inv fn kw h N expr" and m = "potential h rk B", OF inv])
  fix s :: "('a, 'b) pv_state" and e rest s'
  assume "pv_inv fn kw h N expr s" "stack s = e # rest"
    "postvisitor_body fn kw e (s\<lparr>stack := rest\<rparr>) = Inr s'"
  then show "pv_inv fn kw h N expr s' \<and> potential h rk B s' < potential h rk B s"
    by (rule body_step[OF rk al])
next
  fix s :: "('a, 'b) pv_state" and e rest x
  assume "pv_inv fn kw h N expr s" "stack s = e # rest"
    "postvisitor_body fn kw e (s\<lparr>stack := rest\<rparr>) = Inl x"
  then show "\<exists>e os h1. fn e os kw h1 = Inl x"
    by (rule body_error[OF rk])
qed

lemma edges_valid: "(a, b) \<in> edges h \<Longrightarrow> \<exists>ob. get_obj h a = Some ob \<and> b \<in> set (operands ob)"
  by (auto simp: edges_def operands_of_def split: option.splits)

lemma get_obj_SomeD: "get_obj h v = Some ob \<Longrightarrow> \<exists>r. v = PyRef r \<and> r < length h \<and> ob = h ! r"
  by (auto simp: get_obj_def split: pyval.splits if_splits)

lemma finite_objs: "finite {v. get_obj h v \<noteq> None}"
proof -
  have "{v. get_obj h v \<noteq> None} \<subseteq> PyRef ` {..<length h}"
    by (auto dest!: get_obj_SomeD)
  then show ?thesis by (rule finite_subset) simp
qed

lemma reachable_step: "v \<in> reachable h expr \<Longrightarrow> (v, c) \<in> edges h \<Longrightarrow> c \<in> reachable h expr"
  by (auto simp: reachable_def intro: rtrancl_into_rtrancl)

lemma reachable_trancl: "v \<in> reachable h expr \<Longrightarrow> (v, c) \<in> (edges h)\<^sup>+ \<Longrightarrow> c \<in> reachable h expr"
  by (auto simp: reachable_def intro: rtrancl_trans trancl_into_rtrancl)

lemma dag_ranked:
  assumes dag: "expression_dag h expr"
  shows "ranked h (reachable h expr) (\<lambda>v. card ((edges h)\<^sup>+ `` {v}))
           (sum_list (map (\<lambda>ob. length (operands ob)) h))"
  unfolding ranked_def
proof
  fix v assume v: "v \<in> reachable h expr"
  with dag obtain ob where ob: "get_obj h v = Some ob" by (auto simp: expression_dag_def)
  from get_obj_SomeD[OF ob] have "ob \<in> set h" by auto
  then have len: "length (operands ob) \<le> sum_list (map (\<lambda>ob. length (operands ob)) h)"
    by (simp add: member_le_sum_list)
  have fin_reach: "finite (reachable h expr)"
    using dag by (intro finite_subset[OF _ finite_objs[of h]]) (auto simp: expression_dag_def)
  have ch: "c \<in> reachable h expr \<and> card ((edges h)\<^sup>+ `` {c}) < card ((edges h)\<^sup>+ `` {v})"
    if c: "c \<in> set (operands ob)" for c
  proof -
    have e: "(v, c) \<in> edges h" using ob c by (auto simp: edges_def operands_of_def)
    have cr: "c \<in> reachable h expr" using reachable_step[OF v e] .
    have "(c, c) \<notin> (edges h)\<^sup>+" using dag cr by (auto simp: expression_dag_def)
    moreover have "c \<in> (edges h)\<^sup>+ `` {v}" using e by auto
    moreover have "(edges h)\<^sup>+ `` {c} \<subseteq> (edges h)\<^sup>+ `` {v}"
      using e by (auto intro: trancl_into_trancl2)
    ultimately have "(edges h)\<^sup>+ `` {c} \<subset> (edges h)\<^sup>+ `` {v}" by auto
    moreover have "finite ((edges h)\<^sup>+ `` {v})"
      using reachable_trancl[OF v] by (intro finite_subset[OF _ fin_reach]) auto
    ultimately show ?thesis using cr by (simp add: psubset_card_mono)
  qed
  show "\<exists>ob. get_obj h v = Some ob \<and>
          length (operands ob) \<le> sum_list (map (\<lambda>ob. length (operands ob)) h) \<and>
          (\<forall>c\<in>set (operands ob). c \<in> reachable h expr \<and>
             card ((edges h)\<^sup>+ `` {c}) < card ((edges h)\<^sup>+ `` {v}))"
    using ob len ch by blast
qed

lemma init_inv: "pv_inv fn kw h (reachable h expr) expr (postvisitor_init h expr)"
  by (simp add: pv_inv_def postvisitor_init_def reachable_def memo_of_def calls_ok_def)

lemma loop_dag:
  assumes dag: "expression_dag h expr" and al: "allocates_only fn"
  shows "\<exists>res. postvisitor_loop fn kw (postvisitor_init h expr) = Some res \<and>
           (case res of Inl x \<Rightarrow> \<exists>e os h1. fn e os kw h1 = Inl x
            | Inr f \<Rightarrow> pv_inv fn kw h (reachable h expr) expr f \<and> stack f = [])"
  by (rule loop_ranked[OF dag_ranked[OF dag] al init_inv])

lemma edges_ordered:
  assumes "heap_ordered h" "(a, b) \<in> edges h"
  shows "\<exists>i j. a = PyRef i \<and> b = PyRef j \<and> j < i \<and> i < length h"
proof -
  from edges_valid[OF assms(2)] obtain ob where ob: "get_obj h a = Some ob" "b \<in> set (operands ob)"
    by auto
  from get_obj_SomeD[OF ob(1)] obtain i where i: "a = PyRef i" "i < length h" "ob = h ! i" by auto
  from assms(1) i ob(2) have "case b of PyRef j \<Rightarrow> j < i | _ \<Rightarrow> False"
    unfolding heap_ordered_def by blast
  with i show ?thesis by (cases b) auto
qed

lemma trancl_ordered:
  assumes "heap_ordered h" "(a, b) \<in> (edges h)\<^sup>+"
  shows "\<exists>i j. a = PyRef i \<and> b = PyRef j \<and> j < i \<and> i < length h"
  using assms(2)
proof (induction rule: trancl_induct)
  case (base y) then show ?case using edges_ordered[OF assms(1)] by blast
next
  case (step y z)
  from edges_ordered[OF assms(1) step.hyps(2)] step.IH show ?case by force
qed

lemma ordered_dag:
  assumes ord: "heap_ordered h" and ex: "get_obj h expr \<noteq> None"
  shows "expression_dag h expr"
  unfolding expression_dag_def
proof
  fix v assume "v \<in> reachable h expr"
  then have "(expr, v) \<in> (edges h)\<^sup>*" by (simp add: reachable_def)
  then have "v = expr \<or> (expr, v) \<in> (edges h)\<^sup>+" by (auto simp: rtrancl_eq_or_trancl)
  then have "get_obj h v \<noteq> None"
  proof
    assume "v = expr" then show ?thesis using ex by simp
  next
    assume "(expr, v) \<in> (edges h)\<^sup>+"
    from trancl_ordered[OF ord this] show ?thesis by (auto simp: get_obj_def)
  qed
  moreover have "(v, v) \<notin> (edges h)\<^sup>+" using trancl_ordered[OF ord, of v v] by auto
  ultimately show "get_obj h v \<noteq> None \<and> (v, v) \<notin> (edges h)\<^sup>+" by simp
qed

lemma memo_of_last: "cs \<noteq> [] \<Longrightarrow> memo_of cs (fst (last cs)) = Some (snd (snd (snd (last cs))))"
  by (cases cs rule: rev_cases) (auto simp: memo_of_def)

lemma shared_two_parents_dag: "expression_dag shared_two_parents (PyRef 3)"
  by (rule ordered_dag)
     (simp_all add: heap_ordered_def shared_two_parents_def get_obj_def All_less_Suc)

lemma product_example_dag: "expression_dag product_example (PyRef 2)"
  by (rule ordered_dag)
     (simp_all add: heap_ordered_def product_example_def get_obj_def All_less_Suc)

lemma count_nodes_allocates_only: "allocates_only count_nodes"
  by (simp add: allocates_only_def count_nodes_def)

lemma run_product:
  "\<exists>f. postvisitor_loop count_nodes () (postvisitor_init product_example (PyRef 2)) = Some (Inr f) \<and>
     calls f = [(PyRef 1, [], (), 1), (PyRef 0, [], (), 1), (PyRef 2, [1, 1], (), 3)] \<and>
     visited f (PyRef 2) = Some 3 \<and> heap f = product_example"
  by (simp add: postvisitor_loop.simps postvisitor_init_def postvisitor_body_def product_example_def
      operands_of_def get_obj_def count_nodes_def)

lemma edges_shared_leaf: "edges shared_leaf = {(PyRef 1, PyRef 0)}"
  by (auto simp: edges_def operands_of_def get_obj_def shared_leaf_def less_Suc_eq
      split: pyval.splits if_splits)

lemma edges_shared_two_parents:
  "edges shared_two_parents =
     {(PyRef 3, PyRef 0), (PyRef 3, PyRef 2), (PyRef 2, PyRef 0), (PyRef 2, PyRef 1)}"
  by (auto simp: edges_def operands_of_def get_obj_def shared_two_parents_def less_Suc_eq
      split: pyval.splits if_splits)

lemma reachable_shared_leaf: "reachable shared_leaf (PyRef 1) = {PyRef 0, PyRef 1}"
  unfolding reachable_def edges_shared_leaf by (auto elim: rtranclE)

lemma reachable_shared_two_parents:
  "reachable shared_two_parents (PyRef 3) = {PyRef 0, PyRef 1, PyRef 2, PyRef 3}"
proof -
  let ?E = "edges shared_two_parents"
  have sub: "v \<in> {PyRef 0, PyRef 1, PyRef 2, PyRef 3}" if "(PyRef 3, v) \<in> ?E\<^sup>*" for v
    using that by (induction rule: rtrancl_induct) (auto simp: edges_shared_two_parents)
  have "(PyRef 3, PyRef 2) \<in> ?E\<^sup>*" "(PyRef 3, PyRef 0) \<in> ?E\<^sup>*"
    by (auto simp: edges_shared_two_parents)
  moreover from this(1) have "(PyRef 3, PyRef 1) \<in> ?E\<^sup>*"
    by (rule rtrancl_into_rtrancl) (simp add: edges_shared_two_parents)
  ultimately show ?thesis unfolding reachable_def using sub by auto
qed

subsection \<open>Invocations of the combining function\<close>

text \<open>
  Claim C1 says that on a finite acyclic graph \<open>postvisitor\<close> invokes the combining
  function exactly once per distinct node, also when a node is shared. The loop does not
  look at \<^verbatim>\<open>visited\<close> when it pops a node: a node that was pushed twice before its first
  visit is handed to the function twice. For \<^verbatim>\<open>Add(x, x)\<close> there are three invocations on
  two nodes, and for \<^verbatim>\<open>Add(x, Mul(x, y))\<close> five invocations on four nodes; in both the
  shared leaf \<open>x\<close> (address 0) is visited twice.
\<close>

theorem postvisitor_revisits_shared_node:
  "(\<exists>f. postvisitor_loop count_nodes () (postvisitor_init shared_leaf (PyRef 1)) = Some (Inr f) \<and>
      map fst (calls f) = [PyRef 0, PyRef 0, PyRef 1]) \<and>
   reachable shared_leaf (PyRef 1) = {PyRef 0, PyRef 1} \<and>
   (\<exists>f. postvisitor_loop count_nodes () (postvisitor_init shared_two_parents (PyRef 3)) = Some (Inr f) \<and>
      map fst (calls f) = [PyRef 1, PyRef 0, PyRef 2, PyRef 0, PyRef 3]) \<and>
   reachable shared_two_parents (PyRef 3) = {PyRef 0, PyRef 1, PyRef 2, PyRef 3}"
proof -
  have a: "\<exists>f. postvisitor_loop count_nodes () (postvisitor_init shared_leaf (PyRef 1)) = Some (Inr f) \<and>
      map fst (calls f) = [PyRef 0, PyRef 0, PyRef 1]"
    by (simp add: postvisitor_loop.simps postvisitor_init_def postvisitor_body_def shared_leaf_def
      operands_of_def get_obj_def count_nodes_def)
  have b: "\<exists>f. postvisitor_loop count_nodes () (postvisitor_init shared_two_parents (PyRef 3)) = Some (Inr f) \<and>
      map fst (calls f) = [PyRef 1, PyRef 0, PyRef 2, PyRef 0, PyRef 3]"
    by (simp add: postvisitor_loop.simps postvisitor_init_def postvisitor_body_def shared_two_parents_def
      operands_of_def get_obj_def count_nodes_def)
  from a b reachable_shared_leaf reachable_shared_two_parents show ?thesis by blast
qed

text \<open>
  Claim C2: on a finite acyclic graph, and with a combining function that only creates
  objects, \<open>postvisitor\<close> returns, and raises only what the combining function raised;
  when it returns a result \<open>r\<close>, every invocation of the
  combining function came after invocations for all operands of its node, received their
  latest results in operand order together with the unchanged keyword context
  (\<open>calls_ok\<close>), and \<open>r\<close> is the result of the last invocation, which is the one for the root.
\<close>

theorem postvisitor_operands_first:
  assumes "expression_dag h expr" and "allocates_only fn"
  shows "\<exists>res. postvisitor h expr fn kwargs = Some res \<and>
           (\<forall>x. res = Inl x \<longrightarrow> (\<exists>e os h1. fn e os kwargs h1 = Inl x)) \<and>
           (\<forall>r h'. res = Inr (r, h') \<longrightarrow>
              (\<exists>f os. postvisitor_loop fn kwargs (postvisitor_init h expr) = Some (Inr f) \<and>
                 heap f = h' \<and> calls_ok fn h kwargs (calls f) \<and>
                 calls f \<noteq> [] \<and> last (calls f) = (expr, os, kwargs, r)))"
proof -
  from loop_dag[OF assms, of kwargs] obtain res where
    res: "postvisitor_loop fn kwargs (postvisitor_init h expr) = Some res"
    and post: "case res of Inl x \<Rightarrow> \<exists>e os h1. fn e os kwargs h1 = Inl x
            | Inr f \<Rightarrow> pv_inv fn kwargs h (reachable h expr) expr f \<and> stack f = []" by blast
  show ?thesis
  proof (cases res)
    case (Inl x)
    with post have "\<exists>e os h1. fn e os kwargs h1 = Inl x" by simp
    then show ?thesis using res Inl by (simp add: postvisitor_def)
  next
    case (Inr f)
    with post have inv: "pv_inv fn kwargs h (reachable h expr) expr f" and emp: "stack f = []" by auto
    from inv emp have ne: "calls f \<noteq> []" and lst: "fst (last (calls f)) = expr"
      and vis: "visited f = memo_of (calls f)" and cok: "calls_ok fn h kwargs (calls f)"
      by (auto simp: pv_inv_def)
    obtain e os k r where l: "last (calls f) = (e, os, k, r)" by (cases "last (calls f)") auto
    with lst have e: "e = expr" by simp
    have "call_ok fn h kwargs (butlast (calls f)) (last (calls f))"
      using cok ne calls_ok_snoc[of fn h kwargs "butlast (calls f)" "last (calls f)"] by simp
    with l have k: "k = kwargs" by (simp add: call_ok_def)
    have "visited f expr = Some r" using memo_of_last[OF ne] vis lst l by simp
    then have "postvisitor h expr fn kwargs = Some (Inr (r, heap f))"
      using res Inr by (simp add: postvisitor_def)
    then show ?thesis using res Inr cok ne l e k by auto
  qed
qed

theorem postvisitor_operands_first_witness:
  "expression_dag product_example (PyRef 2) \<and> allocates_only count_nodes \<and>
   postvisitor product_example (PyRef 2) count_nodes () = Some (Inr (3, product_example)) \<and>
   (\<exists>f. postvisitor_loop count_nodes () (postvisitor_init product_example (PyRef 2)) = Some (Inr f) \<and>
      calls f = [(PyRef 1, [], (), 1), (PyRef 0, [], (), 1), (PyRef 2, [1, 1], (), 3)] \<and>
      calls_ok count_nodes product_example () (calls f))"
  using postvisitor_operands_first[OF product_example_dag count_nodes_allocates_only, of "()"]
    product_example_dag count_nodes_allocates_only run_product
  by (auto simp: postvisitor_def)

subsection \<open>Termination\<close>

text \<open>
  Claim C7: for every finite acyclic expression graph given as the root, \<open>postvisitor\<close>
  terminates: the loop reaches the empty stack, or stops at an error raised by the
  combining function, after finitely many iterations, and the function returns. The
  combining function is assumed to leave existing objects as they are.
\<close>

theorem postvisitor_terminates:
  assumes "expression_dag h expr" and "allocates_only fn"
  shows "(\<exists>res. postvisitor_loop fn kwargs (postvisitor_init h expr) = Some res) \<and>
         (\<exists>res. postvisitor h expr fn kwargs = Some res)"
proof -
  from loop_dag[OF assms, of kwargs] obtain res where
    res: "postvisitor_loop fn kwargs (postvisitor_init h expr) = Some res" by blast
  then have "\<exists>res'. postvisitor h expr fn kwargs = Some res'"
    by (cases res) (auto simp: postvisitor_def split: option.splits)
  with res show ?thesis by blast
qed

theorem postvisitor_terminates_witness:
  "expression_dag shared_two_parents (PyRef 3) \<and> allocates_only count_nodes \<and>
   (\<exists>res. postvisitor_loop count_nodes () (postvisitor_init shared_two_parents (PyRef 3)) = Some res) \<and>
   (\<exists>res. postvisitor shared_two_parents (PyRef 3) count_nodes () = Some res)"
  using postvisitor_terminates[OF shared_two_parents_dag count_nodes_allocates_only, of "()"]
    shared_two_parents_dag count_nodes_allocates_only
  by simp

section \<open>Construction\<close>

text \<open>
  Claim C8: constructing a \<^verbatim>\<open>Number\<close> from a payload that is not a number fails with a type
  error in the constructor itself, and no object comes into being; from a number (an
  integer or a float) it succeeds, and the new object holds the payload unchanged.
\<close>

theorem Number_init_checks_payload:
  "(\<not> isinstance_Num v \<longrightarrow> Number_init v h = Inl TypeError) \<and>
   (isinstance_Num v \<longrightarrow>
      Number_init v h =
        Inr (PyRef (length h), h @ [\<lparr>cls_of = Number, operands = [], value_attr = Some v\<rparr>]) \<and>
      value_of (h @ [\<lparr>cls_of = Number, operands = [], value_attr = Some v\<rparr>]) (PyRef (length h)) = Inr v) \<and>
   (isinstance_Num v \<longleftrightarrow> (\<exists>i. v = PyInt i) \<or> (\<exists>x. v = PyFloat x))"
  by (cases v) (simp_all add: Number_init_def new_def value_of_def get_obj_def isinstance_Num_def)

theorem Number_init_checks_payload_witness:
  "\<not> isinstance_Num (PyStr ''three'') \<and> Number_init (PyStr ''three'') [] = Inl TypeError \<and>
   \<not> isinstance_Num PyNone \<and> Number_init PyNone [] = Inl TypeError \<and>
   isinstance_Num (PyInt 3) \<and>
   Number_init (PyInt 3) [] =
     Inr (PyRef 0, [\<lparr>cls_of = Number, operands = [], value_attr = Some (PyInt 3)\<rparr>]) \<and>
   value_of [\<lparr>cls_of = Number, operands = [], value_attr = Some (PyInt 3)\<rparr>] (PyRef 0) = Inr (PyInt 3)"
  using Number_init_checks_payload[of "PyStr ''three''" "[]"] Number_init_checks_payload[of PyNone "[]"]
    Number_init_checks_payload[of "PyInt 3" "[]"]
  by (simp add: isinstance_Num_def)

text \<open>
  Claim C10: for an expression object \<open>e\<close> and a value \<open>v\<close> that is neither an expression
  object nor a number, the forms \<^verbatim>\<open>v + e\<close>, \<^verbatim>\<open>v - e\<close>, \<^verbatim>\<open>v * e\<close>, \<^verbatim>\<open>v / e\<close> and \<^verbatim>\<open>v ** e\<close> raise a type
  error: Python calls the reflected hook of \<open>e\<close>, which promotes \<open>v\<close> to a \<^verbatim>\<open>Number\<close>
  unconditionally. No operator node is built.
\<close>

theorem reflected_operators_reject:
  assumes "\<not> isinstance_Num v" and "\<not> is_expression h v" and "is_expression h e"
  shows "py_add prim v e h = Inl TypeError \<and> py_sub prim v e h = Inl TypeError \<and>
         py_mul prim v e h = Inl TypeError \<and> py_truediv prim v e h = Inl TypeError \<and>
         py_pow prim v e h = Inl TypeError \<and>
         Expression_radd e v h = Inl TypeError \<and> Expression_rsub e v h = Inl TypeError \<and>
         Expression_rmul e v h = Inl TypeError \<and> Expression_rtruediv e v h = Inl TypeError \<and>
         Expression_rpow e v h = Inl TypeError"
  using assms
  by (simp add: py_add_def py_sub_def py_mul_def py_truediv_def py_pow_def
      Expression_radd_def Expression_rsub_def Expression_rmul_def Expression_rtruediv_def
      Expression_rpow_def Number_init_def)

theorem reflected_operators_reject_witness:
  "\<not> isinstance_Num (PyStr ''two'') \<and> \<not> is_expression plain_nodes (PyStr ''two'') \<and>
   is_expression plain_nodes (PyRef 1) \<and>
   py_add (\<lambda>_ _ _. Inr PyNone) (PyStr ''two'') (PyRef 1) plain_nodes = Inl TypeError \<and>
   py_sub (\<lambda>_ _ _. Inr PyNone) (PyStr ''two'') (PyRef 1) plain_nodes = Inl TypeError \<and>
   py_mul (\<lambda>_ _ _. Inr PyNone) (PyStr ''two'') (PyRef 1) plain_nodes = Inl TypeError \<and>
   py_truediv (\<lambda>_ _ _. Inr PyNone) (PyStr ''two'') (PyRef 1) plain_nodes = Inl TypeError \<and>
   py_pow (\<lambda>_ _ _. Inr PyNone) (PyStr ''two'') (PyRef 1) plain_nodes = Inl TypeError"
proof -
  have a: "\<not> isinstance_Num (PyStr ''two'')" by (simp add: isinstance_Num_def)
  have b: "\<not> is_expression plain_nodes (PyStr ''two'')" by (simp add: is_expression_def get_obj_def)
  have c: "is_expression plain_nodes (PyRef 1)"
    by (simp add: is_expression_def get_obj_def plain_nodes_def)
  from reflected_operators_reject[OF a b c, of "\<lambda>_ _ _. Inr PyNone"] a b c show ?thesis by simp
qed

section \<open>The differentiation rules\<close>

text \<open>
  Claim C9: \<open>differentiate\<close> on a node whose class has no registered rule (a plain
  \<^verbatim>\<open>Expression\<close>, \<^verbatim>\<open>Operator\<close> or \<^verbatim>\<open>Terminal\<close>), or on a value that is no node at all, raises
  \<^verbatim>\<open>NotImplementedError\<close>; there is no default result.
\<close>

theorem differentiate_unregistered:
  "(get_obj h expr = Some self \<and> cls_of self \<notin> {Number, Symbol, Add, Sub, Mul, Div, Pow_cls} \<longrightarrow>
      differentiate prim expr os kwargs h = Inl NotImplementedError) \<and>
   (get_obj h expr = None \<longrightarrow> differentiate prim expr os kwargs h = Inl NotImplementedError)"
  by (cases "cls_of self") (simp_all add: differentiate_def)

theorem differentiate_unregistered_witness:
  "get_obj plain_nodes (PyRef 0) = Some \<lparr>cls_of = Expression, operands = [], value_attr = None\<rparr> \<and>
   differentiate (\<lambda>_ _ _. Inr PyNone) (PyRef 0) [] Map.empty plain_nodes = Inl NotImplementedError \<and>
   get_obj plain_nodes (PyRef 2) =
     Some \<lparr>cls_of = Operator, operands = [PyRef 1, PyRef 1], value_attr = None\<rparr> \<and>
   differentiate (\<lambda>_ _ _. Inr PyNone) (PyRef 2) [PyRef 1, PyRef 1] [''var'' \<mapsto> PyStr ''x''] plain_nodes
     = Inl NotImplementedError"
  using differentiate_unregistered[of plain_nodes "PyRef 0"
      "\<lparr>cls_of = Expression, operands = [], value_attr = None\<rparr>" "\<lambda>_ _ _. Inr PyNone" "[]" Map.empty]
    differentiate_unregistered[of plain_nodes "PyRef 2"
      "\<lparr>cls_of = Operator, operands = [PyRef 1, PyRef 1], value_attr = None\<rparr>" "\<lambda>_ _ _. Inr PyNone"
      "[PyRef 1, PyRef 1]" "[''var'' \<mapsto> PyStr ''x'']"]
  by (simp add: plain_nodes_def get_obj_def)

text \<open>
  Claim C4: differentiating a \<^verbatim>\<open>Number\<close> gives a new \<^verbatim>\<open>Number\<close> with payload \<^verbatim>\<open>0.0\<close>, whatever
  the target; differentiating a \<^verbatim>\<open>Symbol\<close> gives a new \<^verbatim>\<open>Number\<close> with payload \<^verbatim>\<open>1.0\<close> when the
  symbol's payload equals the target \<^verbatim>\<open>var\<close> and \<^verbatim>\<open>0.0\<close> otherwise. The comparison is on the
  payload: two distinct symbol nodes with the same name get the same derivative.
\<close>

theorem differentiate_terminals:
  "(get_obj h expr = Some self \<and> cls_of self = Number \<longrightarrow>
      differentiate prim expr os kwargs h =
        Inr (PyRef (length h),
             h @ [\<lparr>cls_of = Number, operands = [], value_attr = Some (PyFloat 0)\<rparr>])) \<and>
   (get_obj h expr = Some self \<and> cls_of self = Symbol \<and> value_attr self = Some name \<and>
    kwargs ''var'' = Some target \<longrightarrow>
      differentiate prim expr os kwargs h =
        Inr (PyRef (length h),
             h @ [\<lparr>cls_of = Number, operands = [],
                    value_attr = Some (PyFloat (if py_eq name target then 1 else 0))\<rparr>]))"
  by (simp add: differentiate_def differentiate_Number_def differentiate_Symbol_def Number_init_def
      new_def isinstance_Num_def value_of_def and_then_def)

theorem differentiate_terminals_witness:
  "differentiate (\<lambda>_ _ _. Inr PyNone) (PyRef 1) [] [''var'' \<mapsto> PyStr ''x''] power_example =
     Inr (PyRef 3, power_example @ [\<lparr>cls_of = Number, operands = [], value_attr = Some (PyFloat 0)\<rparr>]) \<and>
   differentiate (\<lambda>_ _ _. Inr PyNone) (PyRef 0) [] [''var'' \<mapsto> PyStr ''x''] product_example =
     Inr (PyRef 3, product_example @ [\<lparr>cls_of = Number, operands = [], value_attr = Some (PyFloat 1)\<rparr>]) \<and>
   differentiate (\<lambda>_ _ _. Inr PyNone) (PyRef 1) [] [''var'' \<mapsto> PyStr ''x''] product_example =
     Inr (PyRef 3, product_example @ [\<lparr>cls_of = Number, operands = [], value_attr = Some (PyFloat 1)\<rparr>]) \<and>
   differentiate (\<lambda>_ _ _. Inr PyNone) (PyRef 0) [] [''var'' \<mapsto> PyStr ''y''] product_example =
     Inr (PyRef 3, product_example @ [\<lparr>cls_of = Number, operands = [], value_attr = Some (PyFloat 0)\<rparr>])"
  using differentiate_terminals[where h = power_example and expr = "PyRef 1"
      and self = "\<lparr>cls_of = Number, operands = [], value_attr = Some (PyInt 3)\<rparr>"
      and prim = "\<lambda>_ _ _. Inr PyNone" and os = "[]" and kwargs = "[''var'' \<mapsto> PyStr ''x'']"]
    differentiate_terminals[where h = product_example and expr = "PyRef 0"
      and self = "\<lparr>cls_of = Symbol, operands = [], value_attr = Some (PyStr ''x'')\<rparr>"
      and name = "PyStr ''x''" and target = "PyStr ''x''"
      and prim = "\<lambda>_ _ _. Inr PyNone" and os = "[]" and kwargs = "[''var'' \<mapsto> PyStr ''x'']"]
    differentiate_terminals[where h = product_example and expr = "PyRef 1"
      and self = "\<lparr>cls_of = Symbol, operands = [], value_attr = Some (PyStr ''x'')\<rparr>"
      and name = "PyStr ''x''" and target = "PyStr ''x''"
      and prim = "\<lambda>_ _ _. Inr PyNone" and os = "[]" and kwargs = "[''var'' \<mapsto> PyStr ''x'']"]
    differentiate_terminals[where h = product_example and expr = "PyRef 0"
      and self = "\<lparr>cls_of = Symbol, operands = [], value_attr = Some (PyStr ''x'')\<rparr>"
      and name = "PyStr ''x''" and target = "PyStr ''y''"
      and prim = "\<lambda>_ _ _. Inr PyNone" and os = "[]" and kwargs = "[''var'' \<mapsto> PyStr ''y'']"]
  by (simp add: power_example_def product_example_def get_obj_def)

subsection \<open>Operator rules\<close>

lemma get_obj_append: "get_obj h v = Some ob \<Longrightarrow> get_obj (h @ xs) v = Some ob"
  by (auto simp: get_obj_def nth_append split: pyval.splits if_splits)

lemma is_expression_append: "is_expression h v \<Longrightarrow> is_expression (h @ xs) v"
  by (auto simp: is_expression_def dest: get_obj_append)

lemma is_expression_not_Num: "is_expression h v \<Longrightarrow> \<not> isinstance_Num v"
  by (cases v) (auto simp: is_expression_def get_obj_def isinstance_Num_def)

lemma mul_rule:
  assumes self: "get_obj h expr = Some self" "cls_of self = Mul" "operands self = [a, b]"
    and ex: "is_expression h a" "is_expression h b" "is_expression h o0" "is_expression h o1"
  shows "differentiate prim expr (o0 # o1 # os) kwargs h =
           Inr (PyRef (length h + 2),
                h @ [\<lparr>cls_of = Mul, operands = [o0, b], value_attr = None\<rparr>,
                     \<lparr>cls_of = Mul, operands = [o1, a], value_attr = None\<rparr>,
                     \<lparr>cls_of = Add, operands = [PyRef (length h), PyRef (length h + 1)],
                       value_attr = None\<rparr>])"
proof -
  let ?m1 = "\<lparr>cls_of = Mul, operands = [o0, b], value_attr = None\<rparr>"
  let ?m2 = "\<lparr>cls_of = Mul, operands = [o1, a], value_attr = None\<rparr>"
  have s1: "py_mul prim o0 b h = Inr (PyRef (length h), h @ [?m1])"
    using ex is_expression_not_Num[OF ex(2)] by (simp add: py_mul_def Expression_mul_def new_def)
  have s2: "py_mul prim o1 a (h @ [?m1]) = Inr (PyRef (length h + 1), h @ [?m1, ?m2])"
    using is_expression_append[OF ex(4), of "[?m1]"] is_expression_not_Num[OF ex(1)]
    by (simp add: py_mul_def Expression_mul_def new_def)
  have s3: "py_add prim (PyRef (length h)) (PyRef (length h + 1)) (h @ [?m1, ?m2]) =
      Inr (PyRef (length h + 2), h @ [?m1, ?m2,
        \<lparr>cls_of = Add, operands = [PyRef (length h), PyRef (length h + 1)], value_attr = None\<rparr>])"
    by (simp add: py_add_def Expression_add_def new_def is_expression_def get_obj_def
        isinstance_Num_def)
  have o1: "operands_of h expr = Inr [a, b]" "operands_of (h @ [?m1]) expr = Inr [a, b]"
    using self get_obj_append[OF self(1), of "[?m1]"] by (simp_all add: operands_of_def)
  show ?thesis
    using self(1,2) o1 s1 s2 s3
    by (simp add: differentiate_def differentiate_Mul_def and_then_def index_def)
qed

lemma run_mul:
  "postvisitor product_example (PyRef 2) (differentiate prim) [''var'' \<mapsto> PyStr ''x''] =
     Some (Inr (PyRef 7, product_derivative))"
  by (simp add: postvisitor_def postvisitor_loop.simps postvisitor_init_def postvisitor_body_def
      product_derivative_def
      product_example_def operands_of_def get_obj_def differentiate_def differentiate_Symbol_def
      differentiate_Mul_def and_then_def index_def value_of_def Number_init_def new_def
      isinstance_Num_def py_mul_def py_add_def Expression_mul_def Expression_add_def
      is_expression_def)

lemma render_mul:
  "str_expr fmt 3 product_derivative (PyRef 7) =
     Inr (fmt (PyFloat 1) @ '' * x + '' @ fmt (PyFloat 1) @ '' * x'')"
  by (simp add: product_derivative_def product_example_def get_obj_def Operator_str_def
      and_then_def index_def precedence_of_def wrap_def builtin_str_def eval_nat_numeral)

lemma pow_rule:
  assumes self: "get_obj h expr = Some self" "cls_of self = Pow_cls" "operands self = [a, b]"
    and ex: "is_expression h a" "is_expression h b" "is_expression h o0"
  shows "differentiate prim expr (o0 # os) kwargs h =
           Inr (PyRef (length h + 4),
                h @ [\<lparr>cls_of = Number, operands = [], value_attr = Some (PyInt 1)\<rparr>,
                     \<lparr>cls_of = Sub, operands = [b, PyRef (length h)], value_attr = None\<rparr>,
                     \<lparr>cls_of = Pow_cls, operands = [a, PyRef (length h + 1)], value_attr = None\<rparr>,
                     \<lparr>cls_of = Mul, operands = [b, PyRef (length h + 2)], value_attr = None\<rparr>,
                     \<lparr>cls_of = Mul, operands = [PyRef (length h + 3), o0], value_attr = None\<rparr>])"
proof -
  let ?n = "\<lparr>cls_of = Number, operands = [], value_attr = Some (PyInt 1)\<rparr>"
  let ?s = "\<lparr>cls_of = Sub, operands = [b, PyRef (length h)], value_attr = None\<rparr>"
  let ?p = "\<lparr>cls_of = Pow_cls, operands = [a, PyRef (length h + 1)], value_attr = None\<rparr>"
  let ?m = "\<lparr>cls_of = Mul, operands = [b, PyRef (length h + 2)], value_attr = None\<rparr>"
  have s1: "py_sub prim b (PyInt 1) h = Inr (PyRef (length h + 1), h @ [?n, ?s])"
    using ex(2) by (simp add: py_sub_def Expression_sub_def Number_init_def new_def isinstance_Num_def)
  have s2: "py_pow prim a (PyRef (length h + 1)) (h @ [?n, ?s]) =
              Inr (PyRef (length h + 2), h @ [?n, ?s, ?p])"
    using is_expression_append[OF ex(1), of "[?n, ?s]"]
    by (simp add: py_pow_def Expression_pow_def new_def isinstance_Num_def)
  have s3: "py_mul prim b (PyRef (length h + 2)) (h @ [?n, ?s, ?p]) =
              Inr (PyRef (length h + 3), h @ [?n, ?s, ?p, ?m])"
    using is_expression_append[OF ex(2), of "[?n, ?s, ?p]"]
    by (simp add: py_mul_def Expression_mul_def new_def isinstance_Num_def)
  have s4: "py_mul prim (PyRef (length h + 3)) o0 (h @ [?n, ?s, ?p, ?m]) =
              Inr (PyRef (length h + 4), h @ [?n, ?s, ?p, ?m,
                \<lparr>cls_of = Mul, operands = [PyRef (length h + 3), o0], value_attr = None\<rparr>])"
    using is_expression_not_Num[OF ex(3)]
    by (simp add: py_mul_def Expression_mul_def new_def is_expression_def get_obj_def)
  have o1: "operands_of h expr = Inr [a, b]" using self by (simp add: operands_of_def)
  show ?thesis
    using self(1,2) o1 s1 s2 s3 s4
    by (simp add: differentiate_def differentiate_Pow_def and_then_def index_def)
qed

lemma run_pow:
  "postvisitor power_example (PyRef 2) (differentiate prim) [''var'' \<mapsto> PyStr ''x''] =
     Some (Inr (PyRef 9, power_derivative))"
  by (simp add: postvisitor_def postvisitor_loop.simps postvisitor_init_def postvisitor_body_def
      power_derivative_def
      power_example_def operands_of_def get_obj_def differentiate_def differentiate_Symbol_def
      differentiate_Number_def
      differentiate_Pow_def and_then_def index_def value_of_def Number_init_def new_def
      isinstance_Num_def py_mul_def py_sub_def py_pow_def Expression_mul_def Expression_sub_def
      Expression_pow_def is_expression_def)

lemma render_pow:
  "str_expr fmt 5 power_derivative (PyRef 9) =
     Inr (fmt (PyInt 3) @ '' * x ^ ('' @ fmt (PyInt 3) @ '' - '' @ fmt (PyInt 1) @ '') * '' @ fmt (PyFloat 1))"
  by (simp add: power_derivative_def power_example_def get_obj_def Operator_str_def
      and_then_def index_def precedence_of_def wrap_def builtin_str_def eval_nat_numeral)

lemma denote_pow:
  "denote env 5 power_derivative (PyRef 9) = Some (3 * (env ''x'') ^ 2 * 1)"
  by (simp add: power_derivative_def power_example_def get_obj_def arith_def eval_nat_numeral)

text \<open>
  Claim C5: for a \<^verbatim>\<open>Mul\<close> node with operands \<open>a\<close> and \<open>b\<close> the rule returns the new expression
  \<^verbatim>\<open>o0 * b + o1 * a\<close>, built from the results \<open>o0\<close>, \<open>o1\<close> for the operands and the original
  operands, with nothing simplified. Differentiating \<^verbatim>\<open>Symbol("x") * Symbol("x")\<close> with respect
  to \<^verbatim>\<open>"x"\<close> gives \<^verbatim>\<open>Add(Mul(Number(1.0), x), Mul(Number(1.0), x))\<close>, which renders as
  \<^verbatim>\<open>1.0 * x + 1.0 * x\<close> (with \<open>fmt\<close> the text of the float), not a folded product.
\<close>

theorem differentiate_Mul_rule:
  "(get_obj h expr = Some self \<and> cls_of self = Mul \<and> operands self = [a, b] \<and>
    is_expression h a \<and> is_expression h b \<and> is_expression h o0 \<and> is_expression h o1 \<longrightarrow>
      differentiate prim expr (o0 # o1 # os) kwargs h =
        Inr (PyRef (length h + 2),
             h @ [\<lparr>cls_of = Mul, operands = [o0, b], value_attr = None\<rparr>,
                  \<lparr>cls_of = Mul, operands = [o1, a], value_attr = None\<rparr>,
                  \<lparr>cls_of = Add, operands = [PyRef (length h), PyRef (length h + 1)],
                    value_attr = None\<rparr>])) \<and>
   postvisitor product_example (PyRef 2) (differentiate prim) [''var'' \<mapsto> PyStr ''x''] =
     Some (Inr (PyRef 7, product_derivative)) \<and>
   str_expr fmt 3 product_derivative (PyRef 7) =
     Inr (fmt (PyFloat 1) @ '' * x + '' @ fmt (PyFloat 1) @ '' * x'')"
  using mul_rule[of h expr self a b o0 o1 prim os kwargs] run_mul[of prim] render_mul[of fmt]
  by blast

theorem differentiate_Mul_rule_witness:
  "get_obj (take 5 product_derivative) (PyRef 2) =
     Some \<lparr>cls_of = Mul, operands = [PyRef 0, PyRef 1], value_attr = None\<rparr> \<and>
   is_expression (take 5 product_derivative) (PyRef 0) \<and>
   is_expression (take 5 product_derivative) (PyRef 1) \<and>
   is_expression (take 5 product_derivative) (PyRef 4) \<and>
   is_expression (take 5 product_derivative) (PyRef 3) \<and>
   differentiate (\<lambda>_ _ _. Inr PyNone) (PyRef 2) [PyRef 4, PyRef 3] [''var'' \<mapsto> PyStr ''x'']
       (take 5 product_derivative) =
     Inr (PyRef 7, product_derivative) \<and>
   str_expr (\<lambda>_. ''1.0'') 3 product_derivative (PyRef 7) = Inr ''1.0 * x + 1.0 * x''"
  using differentiate_Mul_rule[where h = "take 5 product_derivative" and expr = "PyRef 2"
      and self = "\<lparr>cls_of = Mul, operands = [PyRef 0, PyRef 1], value_attr = None\<rparr>"
      and a = "PyRef 0" and b = "PyRef 1" and ?o0.0 = "PyRef 4" and ?o1.0 = "PyRef 3"
      and prim = "\<lambda>_ _ _. Inr PyNone" and os = "[]" and kwargs = "[''var'' \<mapsto> PyStr ''x'']"
      and fmt = "\<lambda>_. ''1.0''"]
  by (simp add: product_derivative_def product_example_def get_obj_def is_expression_def)

text \<open>
  Claim C3: for a \<^verbatim>\<open>Pow\<close> node with operands \<open>a\<close> and \<open>b\<close> the rule returns the new expression
  \<^verbatim>\<open>b * (a ^ (b - 1)) * o0\<close>, where \<open>o0\<close> is the result for \<open>a\<close> and \<open>b\<close> is used as it is.
  Differentiating \<^verbatim>\<open>Symbol("x") ** Number(3)\<close> with respect to \<^verbatim>\<open>"x"\<close> gives
  \<^verbatim>\<open>3 * x ^ (3 - 1) * 1.0\<close>, which under every assignment denotes \<open>3 * x\<^sup>2 * 1\<close>.
\<close>

theorem differentiate_Pow_rule:
  "(get_obj h expr = Some self \<and> cls_of self = Pow_cls \<and> operands self = [a, b] \<and>
    is_expression h a \<and> is_expression h b \<and> is_expression h o0 \<longrightarrow>
      differentiate prim expr (o0 # os) kwargs h =
        Inr (PyRef (length h + 4),
             h @ [\<lparr>cls_of = Number, operands = [], value_attr = Some (PyInt 1)\<rparr>,
                  \<lparr>cls_of = Sub, operands = [b, PyRef (length h)], value_attr = None\<rparr>,
                  \<lparr>cls_of = Pow_cls, operands = [a, PyRef (length h + 1)], value_attr = None\<rparr>,
                  \<lparr>cls_of = Mul, operands = [b, PyRef (length h + 2)], value_attr = None\<rparr>,
                  \<lparr>cls_of = Mul, operands = [PyRef (length h + 3), o0], value_attr = None\<rparr>])) \<and>
   postvisitor power_example (PyRef 2) (differentiate prim) [''var'' \<mapsto> PyStr ''x''] =
     Some (Inr (PyRef 9, power_derivative)) \<and>
   str_expr fmt 5 power_derivative (PyRef 9) =
     Inr (fmt (PyInt 3) @ '' * x ^ ('' @ fmt (PyInt 3) @ '' - '' @ fmt (PyInt 1) @ '') * '' @
          fmt (PyFloat 1)) \<and>
   denote env 5 power_derivative (PyRef 9) = Some (3 * (env ''x'') ^ 2 * 1)"
  using pow_rule[of h expr self a b o0 prim os kwargs] run_pow[of prim] render_pow[of fmt]
    denote_pow[of env]
  by blast

theorem differentiate_Pow_rule_witness:
  "get_obj (take 5 power_derivative) (PyRef 2) =
     Some \<lparr>cls_of = Pow_cls, operands = [PyRef 0, PyRef 1], value_attr = None\<rparr> \<and>
   is_expression (take 5 power_derivative) (PyRef 0) \<and>
   is_expression (take 5 power_derivative) (PyRef 1) \<and>
   is_expression (take 5 power_derivative) (PyRef 4) \<and>
   differentiate (\<lambda>_ _ _. Inr PyNone) (PyRef 2) [PyRef 4, PyRef 3] [''var'' \<mapsto> PyStr ''x'']
       (take 5 power_derivative) =
     Inr (PyRef 9, power_derivative) \<and>
   denote (\<lambda>_. 2) 5 power_derivative (PyRef 9) = Some 12"
  using differentiate_Pow_rule[where h = "take 5 power_derivative" and expr = "PyRef 2"
      and self = "\<lparr>cls_of = Pow_cls, operands = [PyRef 0, PyRef 1], value_attr = None\<rparr>"
      and a = "PyRef 0" and b = "PyRef 1" and ?o0.0 = "PyRef 4"
      and prim = "\<lambda>_ _ _. Inr PyNone" and os = "[PyRef 3]" and kwargs = "[''var'' \<mapsto> PyStr ''x'']"
      and env = "\<lambda>_. 2"]
  by (simp add: power_derivative_def power_example_def get_obj_def is_expression_def)

section \<open>Rendering of operator nodes\<close>

lemma render_examples:
  "str_expr fmt 3 render_example (PyRef 4) = Inr ''(a + b) * c''"
  "str_expr fmt 3 render_example (PyRef 6) = Inr ''a + b * c''"
  by (simp_all add: render_example_def get_obj_def Operator_str_def
      and_then_def index_def precedence_of_def wrap_def builtin_str_def eval_nat_numeral)

lemma operator_str:
  assumes "get_obj h v = Some self" "cls_of self \<in> {Add, Sub, Mul, Div, Pow_cls}"
    "operands self = [a, b]"
    "precedence_of h a = Inr pa" "precedence_of h b = Inr pb"
    "str_expr fmt d h a = Inr sa" "str_expr fmt d h b = Inr sb"
  shows "\<exists>p symb. precedence (cls_of self) = Some p \<and> exp_symbol (cls_of self) = Some symb \<and>
     str_expr fmt (Suc d) h v =
       Inr ((if pa > p then ''('' @ sa @ '')'' else sa) @ '' '' @ symb @ '' '' @
            (if pb > p then ''('' @ sb @ '')'' else sb))"
proof -
  from assms(2) obtain p symb where ps: "precedence (cls_of self) = Some p"
    "exp_symbol (cls_of self) = Some symb" by auto
  have c: "cls_of self \<noteq> Expression" "cls_of self \<notin> {Terminal, Number, Symbol}"
    using assms(2) by auto
  have "str_expr fmt (Suc d) h v = Operator_str (\<lambda>x. str_expr fmt d h x) h self"
    using assms(1) c by simp
  also have "\<dots> = Inr (wrap (pa > p) sa @ '' '' @ symb @ '' '' @ wrap (pb > p) sb)"
    using assms(3-7) ps by (simp add: Operator_str_def and_then_def index_def)
  finally show ?thesis using ps by (simp add: wrap_def)
qed

text \<open>
  Claim C6: an operator node renders as left operand, space, symbol, space, right
  operand, and an operand is put in parentheses exactly when its precedence rank is
  greater than the operator's. The ranks are 1 for \<^verbatim>\<open>Pow\<close>, 2 for \<^verbatim>\<open>Mul\<close> and \<^verbatim>\<open>Div\<close>, 3 for \<^verbatim>\<open>Add\<close>
  and \<^verbatim>\<open>Sub\<close>, and 0 for the terminals, which are therefore never parenthesised.
  \<^verbatim>\<open>(a + b) * c\<close> and \<^verbatim>\<open>a + b * c\<close> render as written.
\<close>

theorem Operator_str_parenthesises:
  "(get_obj h v = Some self \<and> cls_of self \<in> {Add, Sub, Mul, Div, Pow_cls} \<and>
    operands self = [a, b] \<and> precedence_of h a = Inr pa \<and> precedence_of h b = Inr pb \<and>
    str_expr fmt d h a = Inr sa \<and> str_expr fmt d h b = Inr sb \<longrightarrow>
      (\<exists>p symb. precedence (cls_of self) = Some p \<and> exp_symbol (cls_of self) = Some symb \<and>
         str_expr fmt (Suc d) h v =
           Inr ((if pa > p then ''('' @ sa @ '')'' else sa) @ '' '' @ symb @ '' '' @
                (if pb > p then ''('' @ sb @ '')'' else sb)))) \<and>
   precedence Pow_cls = Some 1 \<and> precedence Mul = Some 2 \<and> precedence Div = Some 2 \<and>
   precedence Add = Some 3 \<and> precedence Sub = Some 3 \<and>
   precedence Terminal = Some 0 \<and> precedence Number = Some 0 \<and> precedence Symbol = Some 0 \<and>
   exp_symbol Pow_cls = Some ''^'' \<and> exp_symbol Mul = Some ''*'' \<and> exp_symbol Div = Some ''/'' \<and>
   exp_symbol Add = Some ''+'' \<and> exp_symbol Sub = Some ''-'' \<and>
   str_expr fmt 3 render_example (PyRef 4) = Inr ''(a + b) * c'' \<and>
   str_expr fmt 3 render_example (PyRef 6) = Inr ''a + b * c''"
  using operator_str[of h v self a b pa pb fmt d sa sb] render_examples[of fmt]
  by simp

theorem Operator_str_parenthesises_witness:
  "get_obj render_example (PyRef 4) =
     Some \<lparr>cls_of = Mul, operands = [PyRef 3, PyRef 2], value_attr = None\<rparr> \<and>
   precedence_of render_example (PyRef 3) = Inr 3 \<and>
   precedence_of render_example (PyRef 2) = Inr 0 \<and>
   str_expr (\<lambda>_. ''?'') 2 render_example (PyRef 3) = Inr ''a + b'' \<and>
   str_expr (\<lambda>_. ''?'') 2 render_example (PyRef 2) = Inr ''c'' \<and>
   str_expr (\<lambda>_. ''?'') 3 render_example (PyRef 4) = Inr ''(a + b) * c''"
  using Operator_str_parenthesises[where h = render_example and v = "PyRef 4"
      and self = "\<lparr>cls_of = Mul, operands = [PyRef 3, PyRef 2], value_attr = None\<rparr>"
      and a = "PyRef 3" and b = "PyRef 2" and pa = 3 and pb = 0 and fmt = "\<lambda>_. ''?''"
      and d = 2 and sa = "''a + b''" and sb = "''c''"]
  by (simp add: render_example_def get_obj_def precedence_of_def Operator_str_def and_then_def
      index_def wrap_def builtin_str_def eval_nat_numeral)

end
